theory Spec2Isabelle
  imports Complex_Main "HOL-Library.Char_ord" "HOL-Library.List_Lexorder"
begin

section \<open>Strings\<close>

text \<open>
  A JavaScript string is modelled as a \<^typ>\<open>string\<close>: a list of code units, here
  restricted to the units below 256. Lists are ordered lexicographically by code
  unit, a proper prefix first, which is the order of the default
  \<^verbatim>\<open>Array.prototype.sort\<close> on strings.
\<close>

definition isSpace :: "char \<Rightarrow> bool" where
  \<comment> \<open>the characters below 256 matched by \<^verbatim>\<open>\s\<close> and removed by \<^verbatim>\<open>trim\<close>:
      tab, line feed, vertical tab, form feed, carriage return, space, no-break space\<close>
  "isSpace c \<longleftrightarrow>
     c = CHR 0x09 \<or> c = CHR 0x0A \<or> c = CHR 0x0B \<or> c = CHR 0x0C \<or> c = CHR 0x0D \<or>
     c = CHR 0x20 \<or> c = CHR 0xA0"

definition isWordChar :: "char \<Rightarrow> bool" where
  \<comment> \<open>\<^verbatim>\<open>\w\<close>, that is \<^verbatim>\<open>[A-Za-z0-9_]\<close>\<close>
  "isWordChar c \<longleftrightarrow>
     (CHR ''a'' \<le> c \<and> c \<le> CHR ''z'') \<or> (CHR ''A'' \<le> c \<and> c \<le> CHR ''Z'') \<or>
     (CHR ''0'' \<le> c \<and> c \<le> CHR ''9'') \<or> c = CHR ''_''"

definition toLowerChar :: "char \<Rightarrow> char" where
  \<comment> \<open>\<^verbatim>\<open>toLowerCase\<close> on one code unit below 256: A-Z and the Latin-1 capitals
      (0xC0-0xDE without the multiplication sign 0xD7) move up by 32\<close>
  "toLowerChar c =
     (if (CHR ''A'' \<le> c \<and> c \<le> CHR ''Z'') \<or> (CHR 0xC0 \<le> c \<and> c \<le> CHR 0xDE \<and> c \<noteq> CHR 0xD7)
      then char_of (of_char c + (32::nat)) else c)"

definition toLowerCase :: "string \<Rightarrow> string" where
  "toLowerCase s = map toLowerChar s"

definition trim :: "string \<Rightarrow> string" where
  "trim s = rev (dropWhile isSpace (rev (dropWhile isSpace s)))"

definition removeQuotes :: "string \<Rightarrow> string" where
  \<comment> \<open>\<^verbatim>\<open>.replace(/"/g, "")\<close>\<close>
  "removeQuotes s = filter (\<lambda>c. c \<noteq> CHR 0x22) s"

definition removeNonWord :: "string \<Rightarrow> string" where
  \<comment> \<open>\<^verbatim>\<open>.replace(/[^\w]/g, "")\<close>\<close>
  "removeNonWord s = filter isWordChar s"

text \<open>
  \<^verbatim>\<open>s.split(",")\<close>: the text before the first comma, then the split of the text
  after it; a string without a comma (the empty string too) gives one piece.
\<close>

function splitComma :: "string \<Rightarrow> string list" where
  "splitComma s =
     (let piece = takeWhile (\<lambda>c. c \<noteq> CHR '','') s;
          rest = dropWhile (\<lambda>c. c \<noteq> CHR '','') s
      in if rest = [] then [piece] else piece # splitComma (tl rest))"
  by pat_completeness auto
termination
proof (relation "measure length")
  fix s :: string and piece rest
  assume "rest = dropWhile (\<lambda>c. c \<noteq> CHR '','') s" and "rest \<noteq> []"
  then have "length (tl rest) < length rest" and "length rest \<le> length s"
    by (simp_all add: length_dropWhile_le)
  then show "(tl rest, s) \<in> measure length" by simp
qed simp

declare splitComma.simps [simp del]

text \<open>
  \<^verbatim>\<open>s.split(/\s+/)\<close>: the text before the first run of white space, then the split
  of the text after that run. White space at either end of the string leaves an
  empty piece there.
\<close>

function splitSpaces :: "string \<Rightarrow> string list" where
  "splitSpaces s =
     (let piece = takeWhile (\<lambda>c. \<not> isSpace c) s;
          rest = dropWhile (\<lambda>c. \<not> isSpace c) s
      in if rest = [] then [piece] else piece # splitSpaces (dropWhile isSpace rest))"
  by pat_completeness auto
termination
proof (relation "measure length")
  fix s :: string and piece rest
  assume r: "rest = dropWhile (\<lambda>c. \<not> isSpace c) s" and ne: "rest \<noteq> []"
  from r ne have "isSpace (hd rest)"
    using hd_dropWhile [of "\<lambda>c. \<not> isSpace c" s] by auto
  with ne have "length (dropWhile isSpace rest) < length rest"
    by (cases rest) (simp_all add: length_dropWhile_le less_Suc_eq_le)
  moreover from r have "length rest \<le> length s"
    by (simp add: length_dropWhile_le)
  ultimately show "(dropWhile isSpace rest, s) \<in> measure length" by simp
qed simp

declare splitSpaces.simps [simp del]

fun join :: "string \<Rightarrow> string list \<Rightarrow> string" where
  "join sep [] = []"
| "join sep [t] = t"
| "join sep (t # u # ts) = t @ sep @ join sep (u # ts)"

section \<open>Name normalizer and matcher\<close>

text \<open>
  \<^verbatim>\<open>normalizeEmployeeName\<close>. The two branches on \<^verbatim>\<open>parts.length > 1\<close> are kept as
  written.
\<close>

definition normalizeEmployeeName :: "string \<Rightarrow> string" where
  "normalizeEmployeeName name =
     (if name = [] then []
      else
        let cleaned = removeQuotes (trim name);
            parts = map trim (splitComma cleaned);
            tokens = (if length parts > 1 then concat (map splitSpaces parts)
                      else splitSpaces cleaned);
            normalizedTokens = map (\<lambda>token. removeNonWord (toLowerCase token))
                                 (filter (\<lambda>token. length token > 0) tokens)
        in join '' '' (sort normalizedTokens))"

record NameMatchResult =
  match :: "string option"
  score :: nat

text \<open>
  The similarity \<^verbatim>\<open>fuzzball.token_sort_ratio\<close> belongs to a library outside the
  repository; it is the parameter \<open>ratio\<close>, a score that is a natural number. The loop
  of \<^verbatim>\<open>matchEmployeeByName\<close> carries \<^verbatim>\<open>bestMatch\<close> and \<^verbatim>\<open>bestScore\<close>.
\<close>

fun matchLoop ::
  "(string \<Rightarrow> string \<Rightarrow> nat) \<Rightarrow> string \<Rightarrow> string list \<Rightarrow> string option \<times> nat \<Rightarrow> string option \<times> nat"
where
  "matchLoop ratio normalized [] best = best"
| "matchLoop ratio normalized (breakSheetName # names) (bestMatch, bestScore) =
     (let targetNormalized = normalizeEmployeeName breakSheetName;
          score = ratio normalized targetNormalized
      in if score > bestScore then matchLoop ratio normalized names (Some breakSheetName, score)
         else matchLoop ratio normalized names (bestMatch, bestScore))"

definition matchEmployeeByName ::
  "(string \<Rightarrow> string \<Rightarrow> nat) \<Rightarrow> string \<Rightarrow> string list \<Rightarrow> int \<Rightarrow> NameMatchResult"
where
  "matchEmployeeByName ratio timecardName breakSheetNames threshold =
     (let normalized = normalizeEmployeeName timecardName;
          (bestMatch, bestScore) = matchLoop ratio normalized breakSheetNames (None, 0)
      in if int bestScore \<ge> threshold then \<lparr>match = bestMatch, score = bestScore\<rparr>
         else \<lparr>match = None, score = bestScore\<rparr>)"

section \<open>Records of the reconciliation\<close>

text \<open>
  A \<^verbatim>\<open>Date\<close> is its \<^verbatim>\<open>getTime()\<close>, the milliseconds since the epoch; minute counts
  are integers and hours are rationals. \<^verbatim>\<open>null\<close> is \<^const>\<open>None\<close>.
\<close>

type_synonym Date = int

record TimecardEntry =
  payrollName :: string
  fileNumber :: string
  payDate :: string
  timeIn :: "Date option"
  timeOut :: "Date option"
  hours :: rat

record TimeRange =
  rangeStart :: "Date option"
  rangeEnd :: "Date option"
  actualMinutes :: "int option"

record BreakSheetEntry =
  driverName :: string
  breakDuration :: "int option"
  breakTimeRange :: "TimeRange option"
  hasRemarks :: bool

record TimecardGap =
  employeeName :: string
  fileNumber :: string
  gapStart :: Date
  gapEnd :: Date
  gapMinutes :: int

datatype DiffStatus = Match | Mismatch | Addition | Deletion | Warning

text \<open>The value returned by \<^verbatim>\<open>compareBreakRecords\<close>.\<close>

record Comparison =
  status :: DiffStatus
  discrepancyMinutes :: "int option"
  message :: string

record EmployeeComparisonResult =
  employeeName :: string
  fileNumber :: string
  matchedBreakSheetName :: "string option"
  matchScore :: nat
  timecardGap :: "TimecardGap option"
  totalShiftHours :: rat
  breakSheetDuration :: "int option"
  breakSheetTimeRange :: "TimeRange option"
  status :: DiffStatus
  discrepancyMinutes :: "int option"
  message :: string

record Summary =
  totalEmployees :: nat
  matches :: nat
  mismatches :: nat
  missingBreakLog :: nat
  missingGap :: nat
  noBreakRequired :: nat

record DiscrepancyReport =
  targetDate :: string
  generatedAt :: Date
  summary :: Summary
  results :: "EmployeeComparisonResult list"

section \<open>Timecard ingestion\<close>

text \<open>
  \<^verbatim>\<open>parse\<close> of date-fns is outside the repository: it is the parameter \<open>parse\<close>,
  which gives a valid date, an invalid one (\<^verbatim>\<open>isNaN(parsed.getTime())\<close>) or throws.
  A missing field (\<^verbatim>\<open>undefined\<close>) is \<^const>\<open>None\<close>.
\<close>

datatype ParseOutcome = Valid Date | InvalidDate | Throws

definition parseTimeString ::
  "(string \<Rightarrow> string \<Rightarrow> Date \<Rightarrow> ParseOutcome) \<Rightarrow> string option \<Rightarrow> Date \<Rightarrow> Date option"
where
  "parseTimeString parse timeStr referenceDate =
     (case timeStr of
        None \<Rightarrow> None
      | Some s \<Rightarrow>
          if s = [] \<or> trim s = [] then None
          else (case parse s ''hh:mm a'' referenceDate of
                  Throws \<Rightarrow> None
                | Valid parsed \<Rightarrow> Some parsed
                | InvalidDate \<Rightarrow>
                    (case parse s ''h:mma'' referenceDate of
                       Throws \<Rightarrow> None
                     | Valid parsed \<Rightarrow> Some parsed
                     | InvalidDate \<Rightarrow>
                         (case parse s ''h:mmaa'' referenceDate of
                            Throws \<Rightarrow> None
                          | Valid parsed \<Rightarrow> Some parsed
                          | InvalidDate \<Rightarrow> None))))"

text \<open>
  A row of the parsed table maps a header to the text of its field. \<^verbatim>\<open>!row[k]\<close> holds
  of a missing field and of the empty string.
\<close>

type_synonym Row = "string \<Rightarrow> string option"

definition falsy :: "string option \<Rightarrow> bool" where
  "falsy v \<longleftrightarrow> v = None \<or> v = Some []"

text \<open>
  The entry pushed for a row that is not skipped. \<open>parseFloat\<close> is the built-in of
  that name, \<^const>\<open>None\<close> for \<^verbatim>\<open>NaN\<close>; \<open>now\<close> is the clock read by the default
  reference date. The three \<^verbatim>\<open>trim\<close> calls are reached only on fields that are not
  falsy.
\<close>

definition timecardEntry ::
  "(string \<Rightarrow> string \<Rightarrow> Date \<Rightarrow> ParseOutcome) \<Rightarrow> (string option \<Rightarrow> rat option) \<Rightarrow> Date \<Rightarrow>
   Row \<Rightarrow> TimecardEntry"
where
  "timecardEntry parse parseFloat now row =
     (let timeIn = parseTimeString parse (row ''Time In'') now;
          timeOut = parseTimeString parse (row ''Time Out'') now
      in \<lparr>payrollName = trim (the (row ''Payroll Name'')),
          fileNumber = trim (the (row ''File Number'')),
          payDate = trim (the (row ''Pay Date'')),
          timeIn = timeIn,
          timeOut = timeOut,
          hours = (case parseFloat (row ''Hours'') of
                     None \<Rightarrow> 0
                   | Some h \<Rightarrow> if h = 0 then 0 else h)\<rparr>)"

text \<open>The loop of the \<^verbatim>\<open>complete\<close> callback over the rows, with its two \<^verbatim>\<open>continue\<close>.\<close>

fun timecardRows ::
  "(string \<Rightarrow> string \<Rightarrow> Date \<Rightarrow> ParseOutcome) \<Rightarrow> (string option \<Rightarrow> rat option) \<Rightarrow> Date \<Rightarrow>
   Row list \<Rightarrow> TimecardEntry list"
where
  "timecardRows parse parseFloat now [] = []"
| "timecardRows parse parseFloat now (row # rows) =
     (if falsy (row ''Payroll Name'') \<or> falsy (row ''File Number'') \<or> falsy (row ''Pay Date'')
      then timecardRows parse parseFloat now rows
      else if falsy (row ''Time In'') \<and> falsy (row ''Time Out'')
      then timecardRows parse parseFloat now rows
      else timecardEntry parse parseFloat now row # timecardRows parse parseFloat now rows)"

text \<open>
  The table parse of Papa Parse either completes with the rows or reports an error;
  the promise of \<^verbatim>\<open>parseTimecardCSV\<close> resolves (\<^const>\<open>Inr\<close>) or rejects (\<^const>\<open>Inl\<close>).
\<close>

datatype PapaOutcome = Complete "Row list" | Error string

definition parseTimecardCSV ::
  "(string \<Rightarrow> string \<Rightarrow> Date \<Rightarrow> ParseOutcome) \<Rightarrow> (string option \<Rightarrow> rat option) \<Rightarrow> Date \<Rightarrow>
   PapaOutcome \<Rightarrow> string + TimecardEntry list"
where
  "parseTimecardCSV parse parseFloat now outcome =
     (case outcome of
        Complete data \<Rightarrow> Inr (timecardRows parse parseFloat now data)
      | Error msg \<Rightarrow> Inl (''Failed to parse timecard CSV: '' @ msg))"

section \<open>Gap detector\<close>

text \<open>
  The \<^verbatim>\<open>Map\<close> from file number to that employee's entries keeps its keys in the order
  of their first insertion: an association list. One round of the grouping loop
  appends the entry to the list of its key, or adds the key at the end.
\<close>

fun mapPush ::
  "string \<Rightarrow> TimecardEntry \<Rightarrow> (string \<times> TimecardEntry list) list \<Rightarrow> (string \<times> TimecardEntry list) list"
where
  "mapPush k entry [] = [(k, [entry])]"
| "mapPush k entry ((k', existing) # m) =
     (if k' = k then (k', existing @ [entry]) # m else (k', existing) # mapPush k entry m)"

definition groupByFileNumber :: "TimecardEntry list \<Rightarrow> (string \<times> TimecardEntry list) list" where
  "groupByFileNumber dateEntries =
     foldl (\<lambda>employeeMap entry. mapPush (TimecardEntry.fileNumber entry) entry employeeMap) [] dateEntries"

text \<open>
  The inner loop over the adjacent pairs of the sorted entries of one employee.
  \<^verbatim>\<open>differenceInMinutes\<close> of date-fns is outside the repository: the parameter
  \<open>differenceInMinutes\<close>.
\<close>

fun employeeGaps :: "(Date \<Rightarrow> Date \<Rightarrow> int) \<Rightarrow> string \<Rightarrow> TimecardEntry list \<Rightarrow> TimecardGap list" where
  "employeeGaps differenceInMinutes fileNo (currentEntry # nextEntry # rest) =
     (case (timeOut currentEntry, timeIn nextEntry) of
        (Some out, Some inn) \<Rightarrow>
          (let gapMinutes = differenceInMinutes inn out
           in if gapMinutes > 10
              then [\<lparr>TimecardGap.employeeName = payrollName currentEntry,
                     fileNumber = fileNo,
                     gapStart = out,
                     gapEnd = inn,
                     gapMinutes = gapMinutes\<rparr>]
              else [])
      | _ \<Rightarrow> [])
     @ employeeGaps differenceInMinutes fileNo (nextEntry # rest)"
| "employeeGaps differenceInMinutes fileNo _ = []"

text \<open>
  The entries of one employee with a clock-in, sorted by it. The sort is stable, as
  \<^verbatim>\<open>Array.prototype.sort\<close> is; \<^const>\<open>the\<close> is applied to entries that passed the filter.
\<close>

definition sortedByTimeIn :: "TimecardEntry list \<Rightarrow> TimecardEntry list" where
  "sortedByTimeIn employeeEntries =
     sort_key (\<lambda>e. the (timeIn e)) (filter (\<lambda>e. timeIn e \<noteq> None) employeeEntries)"

definition detectTimecardGaps ::
  "(Date \<Rightarrow> Date \<Rightarrow> int) \<Rightarrow> TimecardEntry list \<Rightarrow> string \<Rightarrow> TimecardGap list"
where
  "detectTimecardGaps differenceInMinutes entries date =
     (let dateEntries = filter (\<lambda>e. payDate e = date) entries;
          employeeMap = groupByFileNumber dateEntries
      in concat (map (\<lambda>(fileNumber, employeeEntries).
                        employeeGaps differenceInMinutes fileNumber (sortedByTimeIn employeeEntries))
                     employeeMap))"

section \<open>Reconciliation engine\<close>

text \<open>The decimal text of a number in a template literal.\<close>

fun showNat :: "nat \<Rightarrow> string" where
  "showNat n = (if n < 10 then [char_of (48 + n)] else showNat (n div 10) @ [char_of (48 + n mod 10)])"

declare showNat.simps [simp del]

definition showInt :: "int \<Rightarrow> string" where
  "showInt i = (if i < 0 then CHR ''-'' # showNat (nat (- i)) else showNat (nat i))"

text \<open>
  \<^verbatim>\<open>breakEntry.breakTimeRange?.actualMinutes ?? breakEntry.breakDuration\<close>: the actual
  minutes of the time range when there is a range and it has them, the declared
  duration otherwise.
\<close>

definition loggedMinutes :: "BreakSheetEntry \<Rightarrow> int option" where
  "loggedMinutes breakEntry =
     (case (case breakTimeRange breakEntry of None \<Rightarrow> None | Some r \<Rightarrow> actualMinutes r) of
        None \<Rightarrow> breakDuration breakEntry
      | Some m \<Rightarrow> Some m)"

fun compareBreakRecords :: "TimecardGap option \<Rightarrow> BreakSheetEntry option \<Rightarrow> int \<Rightarrow> Comparison" where
  "compareBreakRecords (Some gap) (Some breakEntry) toleranceMinutes =
     (case loggedMinutes breakEntry of
        None \<Rightarrow>
          \<lparr>Comparison.status = Warning,
           discrepancyMinutes = None,
           message = ''Gap detected ('' @ showInt (gapMinutes gap)
                     @ ''min) but break duration not specified in sheet''\<rparr>
      | Some logged \<Rightarrow>
          (let difference = \<bar>gapMinutes gap - logged\<bar>
           in if difference \<le> toleranceMinutes
              then \<lparr>Comparison.status = Match,
                    discrepancyMinutes = Some 0,
                    message = ''Break properly logged (Gap: '' @ showInt (gapMinutes gap)
                              @ ''min, Logged: '' @ showInt logged @ ''min)''\<rparr>
              else \<lparr>Comparison.status = Mismatch,
                    discrepancyMinutes = Some (gapMinutes gap - logged),
                    message = ''Duration mismatch (Gap: '' @ showInt (gapMinutes gap)
                              @ ''min, Logged: '' @ showInt logged
                              @ ''min, Difference: '' @ showInt difference @ ''min)''\<rparr>))"
| "compareBreakRecords (Some gap) None toleranceMinutes =
     \<lparr>Comparison.status = Deletion,
      discrepancyMinutes = Some (gapMinutes gap),
      message = ''Gap detected ('' @ showInt (gapMinutes gap) @ ''min) but no break logged in sheet''\<rparr>"
| "compareBreakRecords None (Some breakEntry) toleranceMinutes =
     (let logged = loggedMinutes breakEntry
      in \<lparr>Comparison.status = Warning,
          discrepancyMinutes = (case logged of
                                  None \<Rightarrow> None
                                | Some m \<Rightarrow> if m \<noteq> 0 then Some (- m) else None),
          message = ''Break logged ('' @ (case logged of None \<Rightarrow> ''null'' | Some m \<Rightarrow> showInt m)
                    @ ''min) but no gap found in timecard''\<rparr>)"
| "compareBreakRecords None None toleranceMinutes =
     \<lparr>Comparison.status = Match,
      discrepancyMinutes = None,
      message = ''No break required''\<rparr>"

text \<open>
  One round of the loop over the employees of \<^verbatim>\<open>generateDiscrepancyReport\<close>.
  \<^verbatim>\<open>entries[0]\<close> is \<^const>\<open>hd\<close>: every list of the grouping has an entry (lemma
  \<open>groupByFileNumber_nonempty\<close> below). \<^verbatim>\<open>if (nameMatch.match)\<close> fails on \<^verbatim>\<open>null\<close> and on
  the empty string; \<^verbatim>\<open>breakEntry?.breakDuration || null\<close> turns a duration of 0 into
  \<^verbatim>\<open>null\<close>.
\<close>

definition employeeResult ::
  "(string \<Rightarrow> string \<Rightarrow> nat) \<Rightarrow> TimecardGap list \<Rightarrow> BreakSheetEntry list \<Rightarrow> string list \<Rightarrow> int \<Rightarrow>
   string \<times> TimecardEntry list \<Rightarrow> EmployeeComparisonResult"
where
  "employeeResult ratio gaps breakSheetEntries breakSheetNames toleranceMinutes =
     (\<lambda>(fileNumber, entries).
        let employeeName = payrollName (hd entries);
            totalShiftHours = foldl (\<lambda>sum e. sum + hours e) 0 entries;
            employeeGap = find (\<lambda>g. TimecardGap.fileNumber g = fileNumber) gaps;
            nameMatch = matchEmployeeByName ratio employeeName breakSheetNames 80;
            breakEntry = (case match nameMatch of
                            None \<Rightarrow> None
                          | Some m \<Rightarrow> if m = [] then None
                                      else find (\<lambda>e. driverName e = m) breakSheetEntries);
            comparison = compareBreakRecords employeeGap breakEntry toleranceMinutes
        in \<lparr>EmployeeComparisonResult.employeeName = employeeName,
            fileNumber = fileNumber,
            matchedBreakSheetName = match nameMatch,
            matchScore = score nameMatch,
            timecardGap = employeeGap,
            totalShiftHours = totalShiftHours,
            breakSheetDuration = (case breakEntry of
                                    None \<Rightarrow> None
                                  | Some b \<Rightarrow> (case breakDuration b of
                                                None \<Rightarrow> None
                                              | Some d \<Rightarrow> if d = 0 then None else Some d)),
            breakSheetTimeRange = (case breakEntry of None \<Rightarrow> None | Some b \<Rightarrow> breakTimeRange b),
            status = Comparison.status comparison,
            discrepancyMinutes = Comparison.discrepancyMinutes comparison,
            message = Comparison.message comparison\<rparr>)"

definition summarize :: "EmployeeComparisonResult list \<Rightarrow> Summary" where
  "summarize rs =
     \<lparr>totalEmployees = length rs,
      matches = length (filter (\<lambda>r. status r = Match) rs),
      mismatches = length (filter (\<lambda>r. status r = Mismatch) rs),
      missingBreakLog = length (filter (\<lambda>r. status r = Deletion) rs),
      missingGap = length (filter (\<lambda>r. status r = Warning) rs),
      noBreakRequired = length (filter (\<lambda>r. status r = Addition) rs)\<rparr>"

text \<open>\<^verbatim>\<open>generatedAt: new Date()\<close> reads the clock: the parameter \<open>now\<close>.\<close>

definition generateDiscrepancyReport ::
  "(string \<Rightarrow> string \<Rightarrow> nat) \<Rightarrow> (Date \<Rightarrow> Date \<Rightarrow> int) \<Rightarrow> Date \<Rightarrow>
   TimecardEntry list \<Rightarrow> BreakSheetEntry list \<Rightarrow> string \<Rightarrow> int \<Rightarrow> DiscrepancyReport"
where
  "generateDiscrepancyReport ratio differenceInMinutes now timecardEntries breakSheetEntries
       date toleranceMinutes =
     (let gaps = detectTimecardGaps differenceInMinutes timecardEntries date;
          dateEntries = filter (\<lambda>e. payDate e = date) timecardEntries;
          employeeMap = groupByFileNumber dateEntries;
          breakSheetNames = map driverName breakSheetEntries;
          results = map (employeeResult ratio gaps breakSheetEntries breakSheetNames toleranceMinutes)
                        employeeMap
      in \<lparr>targetDate = date,
          generatedAt = now,
          summary = summarize results,
          results = results\<rparr>)"

section \<open>The gap detector and the report over a store of arrays\<close>

text \<open>
  In the source an array is an object: \<^verbatim>\<open>push\<close> and \<^verbatim>\<open>sort\<close> change it in place, while
  \<^verbatim>\<open>filter\<close>, \<^verbatim>\<open>map\<close> and the literal \<^verbatim>\<open>[]\<close> make a new one. To state what a call
  leaves unchanged, the two functions that call \<^verbatim>\<open>push\<close> and \<^verbatim>\<open>sort\<close> on arrays of
  timecard entries, \<^verbatim>\<open>detectTimecardGaps\<close> and \<^verbatim>\<open>generateDiscrepancyReport\<close>, are
  written a second time over a store. The store holds the arrays of timecard entries
  and the arrays of break-sheet entries by address; an argument that is an array is its
  address, and the store is returned with the result. The arrays \<^verbatim>\<open>gaps\<close>,
  \<^verbatim>\<open>results\<close> and \<^verbatim>\<open>breakSheetNames\<close> are made by the call and have other element types:
  they stay lists. The source assigns to no property of an entry, a break-sheet row, a
  gap or a date, so these stay values; \<^verbatim>\<open>matchEmployeeByName\<close> and
  \<^verbatim>\<open>compareBreakRecords\<close> call no method that changes an array and are used as they
  are.
\<close>

record Store =
  entryArrays :: "TimecardEntry list list"
  breakArrays :: "BreakSheetEntry list list"

text \<open>A new array is put behind the arrays of the store; its address is returned.\<close>

definition newArray :: "TimecardEntry list \<Rightarrow> Store \<Rightarrow> nat \<times> Store" where
  "newArray elems s = (length (entryArrays s), s\<lparr>entryArrays := entryArrays s @ [elems]\<rparr>)"

definition arrayFilter :: "(TimecardEntry \<Rightarrow> bool) \<Rightarrow> nat \<Rightarrow> Store \<Rightarrow> nat \<times> Store" where
  "arrayFilter p a s = newArray (filter p (entryArrays s ! a)) s"

text \<open>\<^verbatim>\<open>push\<close> and \<^verbatim>\<open>sort\<close> write to the array at the address given.\<close>

definition arrayPush :: "nat \<Rightarrow> TimecardEntry \<Rightarrow> Store \<Rightarrow> Store" where
  "arrayPush a entry s = s\<lparr>entryArrays := (entryArrays s)[a := entryArrays s ! a @ [entry]]\<rparr>"

definition arraySortByTimeIn :: "nat \<Rightarrow> Store \<Rightarrow> Store" where
  "arraySortByTimeIn a s =
     s\<lparr>entryArrays := (entryArrays s)[a := sort_key (\<lambda>e. the (timeIn e)) (entryArrays s ! a)]\<rparr>"

text \<open>
  The \<^verbatim>\<open>Map\<close> of the grouping loop holds the address of the array of each file number.
  One round: \<^verbatim>\<open>employeeMap.get(k) || []\<close>, \<^verbatim>\<open>existing.push(entry)\<close>,
  \<^verbatim>\<open>employeeMap.set(k, existing)\<close>.
\<close>

fun mapSet :: "string \<Rightarrow> nat \<Rightarrow> (string \<times> nat) list \<Rightarrow> (string \<times> nat) list" where
  "mapSet k a [] = [(k, a)]"
| "mapSet k a ((k', a') # m) = (if k' = k then (k', a) # m else (k', a') # mapSet k a m)"

definition groupRound ::
  "(string \<times> nat) list \<times> Store \<Rightarrow> TimecardEntry \<Rightarrow> (string \<times> nat) list \<times> Store"
where
  "groupRound = (\<lambda>(employeeMap, s) entry.
     let (existing, s1) = (case map_of employeeMap (TimecardEntry.fileNumber entry) of
                             Some a \<Rightarrow> (a, s)
                           | None \<Rightarrow> newArray [] s);
         s2 = arrayPush existing entry s1
     in (mapSet (TimecardEntry.fileNumber entry) existing employeeMap, s2))"

text \<open>
  The grouping loop runs over the array of the date's entries as the store holds it
  when the loop starts. No round writes to that array (lemma \<open>groupArrays_reads_fixed\<close>
  below), so round \<open>i\<close> of the source reads the same element.
\<close>

definition groupArrays :: "nat \<Rightarrow> Store \<Rightarrow> (string \<times> nat) list \<times> Store" where
  "groupArrays dateEntries s = foldl groupRound ([], s) (entryArrays s ! dateEntries)"

text \<open>
  One round of the loop over the employees in \<^verbatim>\<open>detectTimecardGaps\<close>: the filter makes
  a new array, which is sorted in place and read by the loop over adjacent pairs.
\<close>

definition gapsRound ::
  "(Date \<Rightarrow> Date \<Rightarrow> int) \<Rightarrow> TimecardGap list \<times> Store \<Rightarrow> string \<times> nat \<Rightarrow> TimecardGap list \<times> Store"
where
  "gapsRound differenceInMinutes = (\<lambda>(gaps, s) (fileNo, employeeEntries).
     let (sorted, s1) = arrayFilter (\<lambda>e. timeIn e \<noteq> None) employeeEntries s;
         s2 = arraySortByTimeIn sorted s1
     in (gaps @ employeeGaps differenceInMinutes fileNo (entryArrays s2 ! sorted), s2))"

definition detectTimecardGapsIn ::
  "(Date \<Rightarrow> Date \<Rightarrow> int) \<Rightarrow> nat \<Rightarrow> string \<Rightarrow> Store \<Rightarrow> TimecardGap list \<times> Store"
where
  "detectTimecardGapsIn differenceInMinutes entries date s =
     (let (dateEntries, s1) = arrayFilter (\<lambda>e. payDate e = date) entries s;
          (employeeMap, s2) = groupArrays dateEntries s1
      in foldl (gapsRound differenceInMinutes) ([], s2) employeeMap)"

definition generateDiscrepancyReportIn ::
  "(string \<Rightarrow> string \<Rightarrow> nat) \<Rightarrow> (Date \<Rightarrow> Date \<Rightarrow> int) \<Rightarrow> Date \<Rightarrow>
   nat \<Rightarrow> nat \<Rightarrow> string \<Rightarrow> int \<Rightarrow> Store \<Rightarrow> DiscrepancyReport \<times> Store"
where
  "generateDiscrepancyReportIn ratio differenceInMinutes now timecardEntries breakSheetEntries
       date toleranceMinutes s =
     (let (gaps, s1) = detectTimecardGapsIn differenceInMinutes timecardEntries date s;
          (dateEntries, s2) = arrayFilter (\<lambda>e. payDate e = date) timecardEntries s1;
          (employeeMap, s3) = groupArrays dateEntries s2;
          breakSheetNames = map driverName (breakArrays s3 ! breakSheetEntries);
          results = map (\<lambda>(fileNo, entries).
                           employeeResult ratio gaps (breakArrays s3 ! breakSheetEntries)
                             breakSheetNames toleranceMinutes (fileNo, entryArrays s3 ! entries))
                        employeeMap
      in (\<lparr>targetDate = date, generatedAt = now, summary = summarize results, results = results\<rparr>,
          s3))"

text \<open>
  Two predicates for the proofs: the arrays below an address are the same in two
  stores, and the state of the grouping loop after the entries \<open>xs\<close> holds the groups of
  \<^const>\<open>groupByFileNumber\<close> in arrays of their own, all of them new.
\<close>

definition unchangedBelow :: "nat \<Rightarrow> Store \<Rightarrow> Store \<Rightarrow> bool" where
  "unchangedBelow n s s' \<longleftrightarrow>
     take n (entryArrays s') = take n (entryArrays s)
     \<and> length (entryArrays s) \<le> length (entryArrays s')
     \<and> breakArrays s' = breakArrays s"

definition groupInv :: "nat \<Rightarrow> Store \<Rightarrow> TimecardEntry list \<Rightarrow> (string \<times> nat) list \<times> Store \<Rightarrow> bool" where
  "groupInv n s0 xs = (\<lambda>(m, s).
     unchangedBelow n s0 s \<and> n \<le> length (entryArrays s)
     \<and> list_all (\<lambda>(k, a). n \<le> a \<and> a < length (entryArrays s)) m
     \<and> distinct (map fst m) \<and> distinct (map snd m)
     \<and> map (\<lambda>(k, a). (k, entryArrays s ! a)) m = groupByFileNumber xs)"

section \<open>Sample data\<close>

text \<open>
  Instances of the two library parameters for the evaluation of examples: a similarity
  that gives 100 to equal non-empty strings and 0 to all others, and the whole minutes
  between two instants, rounded toward zero.
\<close>

definition exactRatio :: "string \<Rightarrow> string \<Rightarrow> nat" where
  "exactRatio a b = (if a = b \<and> a \<noteq> [] then 100 else 0)"

definition wholeMinutes :: "Date \<Rightarrow> Date \<Rightarrow> int" where
  "wholeMinutes later earlier =
     (let diff = later - earlier in if diff \<ge> 0 then diff div 60000 else - ((- diff) div 60000))"

text \<open>
  One employee with two punch pairs on 12/24/2025: 09:00 to 12:45 and 13:13 to 17:00
  (milliseconds from midnight), a gap of 28 minutes; and a break-sheet row for the same
  person with the range 12:45pm - 1:13pm (28m).
\<close>

definition sampleTimecard :: "TimecardEntry list" where
  "sampleTimecard =
     [\<lparr>payrollName = ''Acosta, Geovanny'', fileNumber = ''000123'', payDate = ''12/24/2025'',
       timeIn = Some 32400000, timeOut = Some 45900000, hours = 15 / 4\<rparr>,
      \<lparr>payrollName = ''Acosta, Geovanny'', fileNumber = ''000123'', payDate = ''12/24/2025'',
       timeIn = Some 47580000, timeOut = Some 61200000, hours = 4\<rparr>]"

definition sampleBreakSheet :: "BreakSheetEntry list" where
  "sampleBreakSheet =
     [\<lparr>driverName = ''Geovanny,Acosta'', breakDuration = Some 30,
       breakTimeRange = Some \<lparr>rangeStart = Some 45900000, rangeEnd = Some 47580000,
                               actualMinutes = Some 28\<rparr>,
       hasRemarks = False\<rparr>]"

definition sampleGap :: TimecardGap where
  "sampleGap =
     \<lparr>TimecardGap.employeeName = ''Acosta, Geovanny'', fileNumber = ''000123'',
      gapStart = 45900000, gapEnd = 47580000, gapMinutes = 28\<rparr>"

text \<open>A single punch pair: an employee without a gap.\<close>

definition singlePunch :: "TimecardEntry list" where
  "singlePunch =
     [\<lparr>payrollName = ''Acosta, Geovanny'', fileNumber = ''000123'', payDate = ''12/24/2025'',
       timeIn = Some 32400000, timeOut = Some 61200000, hours = 8\<rparr>]"

text \<open>A break-sheet row that declares a break of 0 minutes and has no time range.\<close>

definition zeroMinuteBreak :: BreakSheetEntry where
  "zeroMinuteBreak =
     \<lparr>driverName = ''Geovanny,Acosta'', breakDuration = Some 0, breakTimeRange = None,
      hasRemarks = False\<rparr>"

text \<open>
  Three punch pairs of one employee: 09:00 to 12:00, 12:10 to 15:00 and 15:11 to 17:00,
  with 10 minutes and then 11 minutes between them.
\<close>

definition boundaryTimecard :: "TimecardEntry list" where
  "boundaryTimecard =
     [\<lparr>payrollName = ''Acosta, Geovanny'', fileNumber = ''000123'', payDate = ''12/24/2025'',
       timeIn = Some 32400000, timeOut = Some 43200000, hours = 3\<rparr>,
      \<lparr>payrollName = ''Acosta, Geovanny'', fileNumber = ''000123'', payDate = ''12/24/2025'',
       timeIn = Some 43800000, timeOut = Some 54000000, hours = 17 / 6\<rparr>,
      \<lparr>payrollName = ''Acosta, Geovanny'', fileNumber = ''000123'', payDate = ''12/24/2025'',
       timeIn = Some 54660000, timeOut = Some 61200000, hours = 109 / 60\<rparr>]"

text \<open>
  A table of three rows, the second with an empty name and the third with neither
  clock time; a parser of dates that knows the text 09:00 AM only, and a parser of
  numbers that reads the decimal digits at the start of a text, as \<^verbatim>\<open>parseFloat\<close>
  does on digits followed by letters.
\<close>

definition sampleParse :: "string \<Rightarrow> string \<Rightarrow> Date \<Rightarrow> ParseOutcome" where
  "sampleParse s fmt referenceDate =
     (if s = ''09:00 AM'' \<and> fmt = ''hh:mm a'' then Valid 32400000 else InvalidDate)"

definition sampleParseFloat :: "string option \<Rightarrow> rat option" where
  "sampleParseFloat v =
     (case v of
        None \<Rightarrow> None
      | Some s \<Rightarrow>
          (let digits = takeWhile (\<lambda>c. CHR ''0'' \<le> c \<and> c \<le> CHR ''9'') s
           in if digits = [] then None
              else Some (of_nat (foldl (\<lambda>n c. 10 * n + (of_char c - 48)) 0 digits))))"

definition sampleRows :: "Row list" where
  "sampleRows =
     [map_of [(''Payroll Name'', ''Acosta, Geovanny''), (''File Number'', ''000123''),
              (''Pay Date'', ''12/24/2025''), (''Time In'', ''09:00 AM''), (''Time Out'', ''late''),
              (''Hours'', ''n/a'')],
      map_of [(''Payroll Name'', ''''), (''File Number'', ''000124''),
              (''Pay Date'', ''12/24/2025''), (''Time In'', ''09:00 AM''), (''Time Out'', ''''),
              (''Hours'', ''8'')],
      map_of [(''Payroll Name'', ''Smith, John''), (''File Number'', ''000125''),
              (''Pay Date'', ''12/24/2025''), (''Time In'', ''''), (''Hours'', ''8'')]]"

text \<open>
  A row whose name and clock fields are white space only and whose hours field is the
  text 8abc.
\<close>

definition whiteSpaceRow :: Row where
  "whiteSpaceRow =
     map_of [(''Payroll Name'', ''   ''), (''File Number'', ''000126''),
             (''Pay Date'', ''12/24/2025''), (''Time In'', '' ''), (''Time Out'', '' ''),
             (''Hours'', ''8abc'')]"

text \<open>A store with the sample timecard and the sample break sheet, each at address 0.\<close>

definition sampleStore :: Store where
  "sampleStore = \<lparr>entryArrays = [sampleTimecard], breakArrays = [sampleBreakSheet]\<rparr>"

section \<open>Classification of one gap and one break entry\<close>

text \<open>
  C2. With a gap and a break entry whose logged minutes are known (the actual minutes
  of the time range, else the declared duration): when the gap and the logged minutes
  differ by at most the tolerance the status is \<open>match\<close> and the discrepancy is exactly
  0; otherwise the status is \<open>mismatch\<close> and the discrepancy is the signed difference
  gap minus logged.
\<close>

theorem compare_gap_with_logged_break:
  assumes "loggedMinutes breakEntry = Some logged"
  shows "if \<bar>gapMinutes gap - logged\<bar> \<le> toleranceMinutes
         then Comparison.status (compareBreakRecords (Some gap) (Some breakEntry) toleranceMinutes)
                = Match
            \<and> Comparison.discrepancyMinutes
                (compareBreakRecords (Some gap) (Some breakEntry) toleranceMinutes) = Some 0
         else Comparison.status (compareBreakRecords (Some gap) (Some breakEntry) toleranceMinutes)
                = Mismatch
            \<and> Comparison.discrepancyMinutes
                (compareBreakRecords (Some gap) (Some breakEntry) toleranceMinutes)
                = Some (gapMinutes gap - logged)"
  using assms by (simp add: Let_def)

text \<open>
  The gap of 28 minutes against the row with 28 actual minutes is a match with
  discrepancy 0; against a row that only declares 15 minutes it is a mismatch of 13.
\<close>

theorem compare_gap_with_logged_break_witness:
  "loggedMinutes (hd sampleBreakSheet) = Some 28
   \<and> Comparison.status (compareBreakRecords (Some sampleGap) (Some (hd sampleBreakSheet)) 5) = Match
   \<and> Comparison.discrepancyMinutes
        (compareBreakRecords (Some sampleGap) (Some (hd sampleBreakSheet)) 5) = Some 0
   \<and> loggedMinutes (zeroMinuteBreak\<lparr>breakDuration := Some 15\<rparr>) = Some 15
   \<and> Comparison.status
        (compareBreakRecords (Some sampleGap) (Some (zeroMinuteBreak\<lparr>breakDuration := Some 15\<rparr>)) 5)
        = Mismatch
   \<and> Comparison.discrepancyMinutes
        (compareBreakRecords (Some sampleGap) (Some (zeroMinuteBreak\<lparr>breakDuration := Some 15\<rparr>)) 5)
        = Some 13"
proof -
  have a: "loggedMinutes (hd sampleBreakSheet) = Some 28"
    by (simp add: loggedMinutes_def sampleBreakSheet_def)
  have b: "loggedMinutes (zeroMinuteBreak\<lparr>breakDuration := Some 15\<rparr>) = Some 15"
    by (simp add: loggedMinutes_def zeroMinuteBreak_def)
  have g: "gapMinutes sampleGap = 28"
    by (simp add: sampleGap_def)
  from compare_gap_with_logged_break [OF a, of sampleGap 5]
       compare_gap_with_logged_break [OF b, of sampleGap 5] a b g
  show ?thesis by simp
qed

text \<open>
  C3, at a break entry that logs 0 minutes and no gap: the logged minutes are known
  (they are 0), the status is \<open>warning\<close>, and the discrepancy is absent where the
  negation of the logged minutes is 0.
\<close>

theorem compare_break_of_zero_minutes_without_gap:
  "loggedMinutes zeroMinuteBreak = Some 0
   \<and> Comparison.status (compareBreakRecords None (Some zeroMinuteBreak) 5) = Warning
   \<and> Comparison.discrepancyMinutes (compareBreakRecords None (Some zeroMinuteBreak) 5) = None"
  by (simp add: loggedMinutes_def zeroMinuteBreak_def)

text \<open>With logged minutes other than 0 the discrepancy is their negation.\<close>

lemma compare_break_without_gap:
  assumes "loggedMinutes breakEntry = Some logged" and "logged \<noteq> 0"
  shows "Comparison.status (compareBreakRecords None (Some breakEntry) toleranceMinutes) = Warning
         \<and> Comparison.discrepancyMinutes (compareBreakRecords None (Some breakEntry) toleranceMinutes)
             = Some (- logged)"
  using assms by (simp add: Let_def)

text \<open>
  C4. With a gap and no break entry the status is \<open>deletion\<close> and the discrepancy is
  the gap's minutes.
\<close>

theorem compare_gap_without_break:
  "Comparison.status (compareBreakRecords (Some gap) None toleranceMinutes) = Deletion
   \<and> Comparison.discrepancyMinutes (compareBreakRecords (Some gap) None toleranceMinutes)
       = Some (gapMinutes gap)"
  by simp

theorem compare_gap_without_break_witness:
  "Comparison.status (compareBreakRecords (Some sampleGap) None 5) = Deletion
   \<and> Comparison.discrepancyMinutes (compareBreakRecords (Some sampleGap) None 5) = Some 28"
  using compare_gap_without_break [of sampleGap 5] by (simp add: sampleGap_def)

section \<open>The report and its summary\<close>

lemma status_counts_partition:
  "length (filter (\<lambda>r. status r = Match) rs) + length (filter (\<lambda>r. status r = Mismatch) rs)
   + length (filter (\<lambda>r. status r = Deletion) rs) + length (filter (\<lambda>r. status r = Warning) rs)
   + length (filter (\<lambda>r. status r = Addition) rs) = length rs"
proof (induction rs)
  case Nil
  show ?case by simp
next
  case (Cons r rs)
  then show ?case by (cases "status r") simp_all
qed

lemma sample_report_length:
  "length (results (generateDiscrepancyReport exactRatio wholeMinutes 0 sampleTimecard
                      sampleBreakSheet ''12/24/2025'' 5)) = 1"
  by code_simp

lemma single_punch_report:
  "map (\<lambda>r. (timecardGap r, matchedBreakSheetName r))
     (results (generateDiscrepancyReport exactRatio wholeMinutes 0 singlePunch [] ''12/24/2025'' 5))
   = [(None, None)]"
  by code_simp

text \<open>
  C1. In every report the five counts of the summary add up to \<open>totalEmployees\<close>, which
  is the length of the result list.
\<close>

theorem summary_counts_add_up:
  "let report = generateDiscrepancyReport ratio differenceInMinutes now timecardEntries
                  breakSheetEntries date toleranceMinutes;
       s = summary report
   in matches s + mismatches s + missingBreakLog s + missingGap s + noBreakRequired s
        = totalEmployees s
      \<and> totalEmployees s = length (results report)"
proof -
  have "matches (summarize rs) + mismatches (summarize rs) + missingBreakLog (summarize rs)
          + missingGap (summarize rs) + noBreakRequired (summarize rs) = totalEmployees (summarize rs)
        \<and> totalEmployees (summarize rs) = length rs" for rs
    using status_counts_partition [of rs] by (simp add: summarize_def)
  then show ?thesis
    by (simp add: generateDiscrepancyReport_def Let_def)
qed

theorem summary_counts_add_up_witness:
  "let s = summary (generateDiscrepancyReport exactRatio wholeMinutes 0 sampleTimecard
                      sampleBreakSheet ''12/24/2025'' 5)
   in matches s + mismatches s + missingBreakLog s + missingGap s + noBreakRequired s = 1
      \<and> totalEmployees s = 1"
  using summary_counts_add_up [of exactRatio wholeMinutes 0 sampleTimecard sampleBreakSheet
          "''12/24/2025''" 5] sample_report_length
  by (simp add: Let_def)

text \<open>
  C9. No result of a report has the status \<open>addition\<close>, so \<open>noBreakRequired\<close> is 0; a
  result with neither a gap nor a matched break-sheet name has the status \<open>match\<close>,
  and \<open>matches\<close> counts the results of that status.
\<close>

lemma compareBreakRecords_status:
  "Comparison.status (compareBreakRecords g b tol) \<noteq> Addition"
  by (cases "(g, b, tol)" rule: compareBreakRecords.cases) (auto simp: Let_def split: option.splits)

lemma employeeResult_status:
  "status (employeeResult ratio gaps bs names tol grp) \<noteq> Addition"
  by (cases grp) (simp add: employeeResult_def Let_def compareBreakRecords_status)

lemma employeeResult_no_gap_no_match:
  assumes "timecardGap (employeeResult ratio gaps bs names tol grp) = None"
    and "matchedBreakSheetName (employeeResult ratio gaps bs names tol grp) = None"
  shows "status (employeeResult ratio gaps bs names tol grp) = Match"
  using assms by (cases grp) (simp add: employeeResult_def Let_def)

theorem no_addition_status:
  "let report = generateDiscrepancyReport ratio differenceInMinutes now timecardEntries
                  breakSheetEntries date toleranceMinutes
   in (\<forall>r \<in> set (results report). status r \<noteq> Addition)
      \<and> noBreakRequired (summary report) = 0
      \<and> (\<forall>r \<in> set (results report).
            timecardGap r = None \<and> matchedBreakSheetName r = None \<longrightarrow> status r = Match)
      \<and> matches (summary report) = length (filter (\<lambda>r. status r = Match) (results report))"
proof -
  have "noBreakRequired (summarize rs) = 0" if "\<forall>r \<in> set rs. status r \<noteq> Addition" for rs
    using that by (simp add: summarize_def filter_empty_conv)
  moreover have "matches (summarize rs) = length (filter (\<lambda>r. status r = Match) rs)" for rs
    by (simp add: summarize_def)
  ultimately show ?thesis
    by (auto simp: generateDiscrepancyReport_def Let_def employeeResult_status
          employeeResult_no_gap_no_match)
qed

text \<open>
  The employee with a single punch pair and an empty break sheet: one result, without
  gap and without match, of status \<open>match\<close>, counted under \<open>matches\<close>.
\<close>

theorem no_addition_status_witness:
  "let report = generateDiscrepancyReport exactRatio wholeMinutes 0 singlePunch [] ''12/24/2025'' 5
   in map (\<lambda>r. (timecardGap r, matchedBreakSheetName r)) (results report) = [(None, None)]
      \<and> map status (results report) = [Match]
      \<and> noBreakRequired (summary report) = 0
      \<and> matches (summary report) = 1"
proof -
  let ?report = "generateDiscrepancyReport exactRatio wholeMinutes 0 singlePunch [] ''12/24/2025'' 5"
  from single_punch_report obtain r where r: "results ?report = [r]"
    and g: "timecardGap r = None" and m: "matchedBreakSheetName r = None"
    by (auto simp: map_eq_Cons_conv)
  from no_addition_status [of exactRatio wholeMinutes 0 singlePunch "[]" "''12/24/2025''" 5] r g m
  show ?thesis by (simp add: Let_def)
qed

section \<open>Grouping by file number\<close>

lemma map_of_mapPush:
  "map_of (mapPush k e m) =
     (map_of m)(k \<mapsto> (case map_of m k of None \<Rightarrow> [e] | Some es \<Rightarrow> es @ [e]))"
  by (induction m) (auto simp: fun_eq_iff)

lemma keys_mapPush_old: "k \<in> fst ` set m \<Longrightarrow> map fst (mapPush k e m) = map fst m"
  by (induction m) force+

lemma keys_mapPush_new: "k \<notin> fst ` set m \<Longrightarrow> map fst (mapPush k e m) = map fst m @ [k]"
  by (induction m) auto

lemma groupByFileNumber_snoc:
  "groupByFileNumber (xs @ [x]) = mapPush (TimecardEntry.fileNumber x) x (groupByFileNumber xs)"
  by (simp add: groupByFileNumber_def)

lemma groupByFileNumber_keys_distinct: "distinct (map fst (groupByFileNumber xs))"
proof (induction xs rule: rev_induct)
  case Nil
  show ?case by (simp add: groupByFileNumber_def)
next
  case (snoc x xs)
  show ?case
  proof (cases "TimecardEntry.fileNumber x \<in> fst ` set (groupByFileNumber xs)")
    case True
    with snoc show ?thesis by (simp add: groupByFileNumber_snoc keys_mapPush_old)
  next
    case False
    with snoc show ?thesis by (simp add: groupByFileNumber_snoc keys_mapPush_new)
  qed
qed

lemma map_of_groupByFileNumber:
  "map_of (groupByFileNumber xs) k =
     (if k \<in> TimecardEntry.fileNumber ` set xs
      then Some (filter (\<lambda>e. TimecardEntry.fileNumber e = k) xs) else None)"
proof (induction xs arbitrary: k rule: rev_induct)
  case Nil
  show ?case by (simp add: groupByFileNumber_def)
next
  case (snoc x xs)
  have none: "filter (\<lambda>e. TimecardEntry.fileNumber e = j) xs = []"
    if "j \<notin> TimecardEntry.fileNumber ` set xs" for j
    using that by (auto simp: filter_empty_conv)
  show ?case
  proof (cases "k = TimecardEntry.fileNumber x")
    case True
    then show ?thesis
      by (simp add: groupByFileNumber_snoc map_of_mapPush snoc none)
  next
    case False
    then show ?thesis
      by (simp add: groupByFileNumber_snoc map_of_mapPush snoc)
  qed
qed

lemma groupByFileNumber_member:
  "(k, es) \<in> set (groupByFileNumber xs) \<longleftrightarrow>
     es = filter (\<lambda>e. TimecardEntry.fileNumber e = k) xs \<and> es \<noteq> []"
proof -
  have ne: "filter (\<lambda>e. TimecardEntry.fileNumber e = k) xs \<noteq> [] \<longleftrightarrow>
              k \<in> TimecardEntry.fileNumber ` set xs"
    by (auto simp: filter_empty_conv)
  have "(k, es) \<in> set (groupByFileNumber xs) \<longleftrightarrow> map_of (groupByFileNumber xs) k = Some es"
    using groupByFileNumber_keys_distinct [of xs] by simp
  also have "\<dots> \<longleftrightarrow> es = filter (\<lambda>e. TimecardEntry.fileNumber e = k) xs
                      \<and> k \<in> TimecardEntry.fileNumber ` set xs"
    unfolding map_of_groupByFileNumber by auto
  also have "\<dots> \<longleftrightarrow> es = filter (\<lambda>e. TimecardEntry.fileNumber e = k) xs \<and> es \<noteq> []"
    by (auto simp: ne [symmetric])
  finally show ?thesis .
qed

lemma groupByFileNumber_nonempty:
  "(k, es) \<in> set (groupByFileNumber xs) \<Longrightarrow> es \<noteq> []"
  using groupByFileNumber_member [of k es xs] by blast

lemma employeeGaps_member:
  "g \<in> set (employeeGaps diffMin fileNo xs) \<longleftrightarrow>
     (\<exists>i out inn. Suc i < length xs \<and> timeOut (xs ! i) = Some out \<and> timeIn (xs ! Suc i) = Some inn
        \<and> diffMin inn out > 10
        \<and> g = \<lparr>TimecardGap.employeeName = payrollName (xs ! i), fileNumber = fileNo,
                gapStart = out, gapEnd = inn, gapMinutes = diffMin inn out\<rparr>)"
  (is "?L xs \<longleftrightarrow> (\<exists>i out inn. ?P xs i out inn)")
proof (induction xs rule: induct_list012)
  case (3 cur nxt rest)
  let ?xs = "cur # nxt # rest"
  have split: "(\<exists>i out inn. ?P ?xs i out inn) \<longleftrightarrow>
        (\<exists>out inn. ?P ?xs 0 out inn) \<or> (\<exists>i out inn. ?P (nxt # rest) i out inn)"
  proof
    assume "\<exists>i out inn. ?P ?xs i out inn"
    then obtain i out inn where p: "?P ?xs i out inn" by blast
    show "(\<exists>out inn. ?P ?xs 0 out inn) \<or> (\<exists>i out inn. ?P (nxt # rest) i out inn)"
    proof (cases i)
      case 0
      with p show ?thesis by blast
    next
      case (Suc j)
      with p have "?P (nxt # rest) j out inn" by simp
      then show ?thesis by blast
    qed
  next
    assume "(\<exists>out inn. ?P ?xs 0 out inn) \<or> (\<exists>i out inn. ?P (nxt # rest) i out inn)"
    then show "\<exists>i out inn. ?P ?xs i out inn"
    proof
      assume "\<exists>out inn. ?P ?xs 0 out inn"
      then show ?thesis by blast
    next
      assume "\<exists>i out inn. ?P (nxt # rest) i out inn"
      then obtain j out inn where "?P (nxt # rest) j out inn" by blast
      then have "?P ?xs (Suc j) out inn" by simp
      then show ?thesis by blast
    qed
  qed
  have head: "g \<in> set (case (timeOut cur, timeIn nxt) of
        (Some out, Some inn) \<Rightarrow>
          (let gapMinutes = diffMin inn out
           in if gapMinutes > 10
              then [\<lparr>TimecardGap.employeeName = payrollName cur, fileNumber = fileNo,
                     gapStart = out, gapEnd = inn, gapMinutes = gapMinutes\<rparr>]
              else [])
      | _ \<Rightarrow> []) \<longleftrightarrow> (\<exists>out inn. ?P ?xs 0 out inn)"
    by (auto simp: Let_def split: option.splits)
  show ?case
    unfolding split using head 3 by simp
qed simp_all

lemma detectTimecardGaps_member:
  "g \<in> set (detectTimecardGaps diffMin entries date) \<longleftrightarrow>
     (\<exists>fileNo es. (fileNo, es) \<in> set (groupByFileNumber (filter (\<lambda>e. payDate e = date) entries))
        \<and> g \<in> set (employeeGaps diffMin fileNo (sortedByTimeIn es)))"
  by (auto simp: detectTimecardGaps_def Let_def)

section \<open>Gaps above ten minutes\<close>

lemma sortedByTimeIn_sorted: "sorted (map (\<lambda>e. the (timeIn e)) (sortedByTimeIn es))"
  by (simp add: sortedByTimeIn_def)

lemma set_sortedByTimeIn: "set (sortedByTimeIn es) = {e \<in> set es. timeIn e \<noteq> None}"
  by (simp add: sortedByTimeIn_def)

lemma sortedByTimeIn_nonempty: "sortedByTimeIn es \<noteq> [] \<Longrightarrow> es \<noteq> []"
  by (auto simp: sortedByTimeIn_def)

text \<open>
  C7. Every emitted gap has more than 10 minutes and is the gap of an adjacent pair
  of the employee's entries of the date that have a clock-in, sorted by it, the clock-out of the first
  entry being present. For every such pair the gap is emitted exactly when the minute
  difference between the next clock-in and the current clock-out is above 10: at 10
  it is not emitted, at 11 it is.
\<close>

theorem gaps_only_above_ten_minutes:
  "(\<forall>g \<in> set (detectTimecardGaps diffMin entries date).
      gapMinutes g > 10 \<and>
      (\<exists>i out inn.
         let sorted = sortedByTimeIn (filter (\<lambda>e. TimecardEntry.fileNumber e = TimecardGap.fileNumber g)
                                        (filter (\<lambda>e. payDate e = date) entries))
         in Suc i < length sorted \<and> timeOut (sorted ! i) = Some out
            \<and> timeIn (sorted ! Suc i) = Some inn
            \<and> g = \<lparr>TimecardGap.employeeName = payrollName (sorted ! i),
                     fileNumber = TimecardGap.fileNumber g,
                     gapStart = out, gapEnd = inn, gapMinutes = diffMin inn out\<rparr>))
   \<and> (\<forall>fileNo i out inn.
         let sorted = sortedByTimeIn (filter (\<lambda>e. TimecardEntry.fileNumber e = fileNo)
                                        (filter (\<lambda>e. payDate e = date) entries))
         in Suc i < length sorted \<and> timeOut (sorted ! i) = Some out
            \<and> timeIn (sorted ! Suc i) = Some inn \<longrightarrow>
            (\<lparr>TimecardGap.employeeName = payrollName (sorted ! i), fileNumber = fileNo,
              gapStart = out, gapEnd = inn, gapMinutes = diffMin inn out\<rparr>
               \<in> set (detectTimecardGaps diffMin entries date)
             \<longleftrightarrow> diffMin inn out > 10))"
proof -
  let ?dateEntries = "filter (\<lambda>e. payDate e = date) entries"
  let ?sorted = "\<lambda>fileNo. sortedByTimeIn (filter (\<lambda>e. TimecardEntry.fileNumber e = fileNo) ?dateEntries)"
  let ?out = "detectTimecardGaps diffMin entries date"
  have origin: "gapMinutes g > 10 \<and>
      (\<exists>i out inn. Suc i < length (?sorted (TimecardGap.fileNumber g))
         \<and> timeOut (?sorted (TimecardGap.fileNumber g) ! i) = Some out
         \<and> timeIn (?sorted (TimecardGap.fileNumber g) ! Suc i) = Some inn
         \<and> g = \<lparr>TimecardGap.employeeName = payrollName (?sorted (TimecardGap.fileNumber g) ! i),
                  fileNumber = TimecardGap.fileNumber g,
                  gapStart = out, gapEnd = inn, gapMinutes = diffMin inn out\<rparr>)"
    if "g \<in> set ?out" for g
  proof -
    from that obtain fileNo es where grp: "(fileNo, es) \<in> set (groupByFileNumber ?dateEntries)"
      and g: "g \<in> set (employeeGaps diffMin fileNo (sortedByTimeIn es))"
      unfolding detectTimecardGaps_member by blast
    from grp have es: "es = filter (\<lambda>e. TimecardEntry.fileNumber e = fileNo) ?dateEntries"
      unfolding groupByFileNumber_member by blast
    from g obtain i out inn where p: "Suc i < length (sortedByTimeIn es)"
      "timeOut (sortedByTimeIn es ! i) = Some out" "timeIn (sortedByTimeIn es ! Suc i) = Some inn"
      "diffMin inn out > 10"
      "g = \<lparr>TimecardGap.employeeName = payrollName (sortedByTimeIn es ! i), fileNumber = fileNo,
             gapStart = out, gapEnd = inn, gapMinutes = diffMin inn out\<rparr>"
      unfolding employeeGaps_member by blast
    from p(5) have fn: "TimecardGap.fileNumber g = fileNo" and gm: "gapMinutes g = diffMin inn out"
      by simp_all
    from p gm have "gapMinutes g > 10" by simp
    moreover from p(1,2,3,5) have "\<exists>i out inn. Suc i < length (?sorted (TimecardGap.fileNumber g))
         \<and> timeOut (?sorted (TimecardGap.fileNumber g) ! i) = Some out
         \<and> timeIn (?sorted (TimecardGap.fileNumber g) ! Suc i) = Some inn
         \<and> g = \<lparr>TimecardGap.employeeName = payrollName (?sorted (TimecardGap.fileNumber g) ! i),
                  fileNumber = TimecardGap.fileNumber g,
                  gapStart = out, gapEnd = inn, gapMinutes = diffMin inn out\<rparr>"
      unfolding fn es by blast
    ultimately show ?thesis by blast
  qed
  have emitted: "\<lparr>TimecardGap.employeeName = payrollName (?sorted fileNo ! i), fileNumber = fileNo,
              gapStart = out, gapEnd = inn, gapMinutes = diffMin inn out\<rparr> \<in> set ?out
             \<longleftrightarrow> diffMin inn out > 10"
    (is "?g \<in> _ \<longleftrightarrow> _")
    if len: "Suc i < length (?sorted fileNo)" and out: "timeOut (?sorted fileNo ! i) = Some out"
      and inn: "timeIn (?sorted fileNo ! Suc i) = Some inn" for fileNo i out inn
  proof
    assume "?g \<in> set ?out"
    from origin [OF this] show "diffMin inn out > 10" by simp
  next
    assume big: "diffMin inn out > 10"
    let ?es = "filter (\<lambda>e. TimecardEntry.fileNumber e = fileNo) ?dateEntries"
    from len have "sortedByTimeIn ?es \<noteq> []" by auto
    then have "?es \<noteq> []" by (rule sortedByTimeIn_nonempty)
    then have "(fileNo, ?es) \<in> set (groupByFileNumber ?dateEntries)"
      unfolding groupByFileNumber_member by blast
    moreover from len out inn big have "?g \<in> set (employeeGaps diffMin fileNo (sortedByTimeIn ?es))"
      unfolding employeeGaps_member by blast
    ultimately show "?g \<in> set ?out"
      unfolding detectTimecardGaps_member by blast
  qed
  from origin emitted show ?thesis
    unfolding Let_def by blast
qed

lemma boundary_sorted:
  "sortedByTimeIn (filter (\<lambda>e. TimecardEntry.fileNumber e = ''000123'')
                     (filter (\<lambda>e. payDate e = ''12/24/2025'') boundaryTimecard))
   = boundaryTimecard"
  by code_simp

lemma boundary_gaps:
  "detectTimecardGaps wholeMinutes boundaryTimecard ''12/24/2025''
   = [\<lparr>TimecardGap.employeeName = ''Acosta, Geovanny'', fileNumber = ''000123'',
       gapStart = 54000000, gapEnd = 54660000, gapMinutes = 11\<rparr>]"
  by code_simp


text \<open>
  The three punch pairs with 10 and 11 minutes between them: the first pair gives no
  gap, the second gives the gap of 11 minutes.
\<close>

theorem gaps_only_above_ten_minutes_witness:
  "wholeMinutes 43800000 43200000 = 10
   \<and> \<lparr>TimecardGap.employeeName = ''Acosta, Geovanny'', fileNumber = ''000123'',
       gapStart = 43200000, gapEnd = 43800000, gapMinutes = 10\<rparr>
        \<notin> set (detectTimecardGaps wholeMinutes boundaryTimecard ''12/24/2025'')
   \<and> wholeMinutes 54660000 54000000 = 11
   \<and> \<lparr>TimecardGap.employeeName = ''Acosta, Geovanny'', fileNumber = ''000123'',
       gapStart = 54000000, gapEnd = 54660000, gapMinutes = 11\<rparr>
        \<in> set (detectTimecardGaps wholeMinutes boundaryTimecard ''12/24/2025'')"
proof -
  have ten: "wholeMinutes 43800000 43200000 = 10" and eleven: "wholeMinutes 54660000 54000000 = 11"
    by (simp_all add: wholeMinutes_def)
  have pairs: "\<And>fileNo i out inn.
         let sorted = sortedByTimeIn (filter (\<lambda>e. TimecardEntry.fileNumber e = fileNo)
                                        (filter (\<lambda>e. payDate e = ''12/24/2025'') boundaryTimecard))
         in Suc i < length sorted \<and> timeOut (sorted ! i) = Some out
            \<and> timeIn (sorted ! Suc i) = Some inn \<longrightarrow>
            (\<lparr>TimecardGap.employeeName = payrollName (sorted ! i), fileNumber = fileNo,
              gapStart = out, gapEnd = inn, gapMinutes = wholeMinutes inn out\<rparr>
               \<in> set (detectTimecardGaps wholeMinutes boundaryTimecard ''12/24/2025'')
             \<longleftrightarrow> wholeMinutes inn out > 10)"
    using gaps_only_above_ten_minutes [of wholeMinutes boundaryTimecard "''12/24/2025''"] by blast
  have first: "Suc 0 < length boundaryTimecard \<and> timeOut (boundaryTimecard ! 0) = Some 43200000
        \<and> timeIn (boundaryTimecard ! Suc 0) = Some 43800000
        \<and> payrollName (boundaryTimecard ! 0) = ''Acosta, Geovanny''"
    by (simp add: boundaryTimecard_def)
  have second: "Suc 1 < length boundaryTimecard \<and> timeOut (boundaryTimecard ! 1) = Some 54000000
        \<and> timeIn (boundaryTimecard ! Suc 1) = Some 54660000
        \<and> payrollName (boundaryTimecard ! 1) = ''Acosta, Geovanny''"
    by (simp add: boundaryTimecard_def)
  from pairs [of "''000123''" 0 43200000 43800000] first ten
  have "\<lparr>TimecardGap.employeeName = ''Acosta, Geovanny'', fileNumber = ''000123'',
       gapStart = 43200000, gapEnd = 43800000, gapMinutes = 10\<rparr>
        \<notin> set (detectTimecardGaps wholeMinutes boundaryTimecard ''12/24/2025'')"
    unfolding Let_def boundary_sorted by simp
  moreover from pairs [of "''000123''" 1 54000000 54660000] second eleven
  have "\<lparr>TimecardGap.employeeName = ''Acosta, Geovanny'', fileNumber = ''000123'',
       gapStart = 54000000, gapEnd = 54660000, gapMinutes = 11\<rparr>
        \<in> set (detectTimecardGaps wholeMinutes boundaryTimecard ''12/24/2025'')"
    unfolding Let_def boundary_sorted by simp
  ultimately show ?thesis using ten eleven by blast
qed


section \<open>Best match by name\<close>

lemma Max_insert_insert:
  fixes a b :: nat
  assumes "finite A"
  shows "Max (insert b (insert a A)) = Max (insert (max b a) A)"
  using assms Max_insert by fastforce

lemma matchLoop_best:
  "matchLoop ratio normalized names (bestMatch, bestScore) =
     (if Max (insert bestScore ((\<lambda>name. ratio normalized (normalizeEmployeeName name)) ` set names))
           > bestScore
      then find (\<lambda>name. ratio normalized (normalizeEmployeeName name)
                          = Max (insert bestScore
                                  ((\<lambda>name. ratio normalized (normalizeEmployeeName name)) ` set names)))
             names
      else bestMatch,
      Max (insert bestScore ((\<lambda>name. ratio normalized (normalizeEmployeeName name)) ` set names)))"
proof (induction names arbitrary: bestMatch bestScore)
  case Nil
  show ?case by simp
next
  case (Cons name names)
  define sc where "sc = (\<lambda>name. ratio normalized (normalizeEmployeeName name))"
  define s where "s = sc name"
  have IH: "matchLoop ratio normalized names (bm, bs) =
      (if Max (insert bs (sc ` set names)) > bs
       then find (\<lambda>name. sc name = Max (insert bs (sc ` set names))) names else bm,
       Max (insert bs (sc ` set names)))" for bm bs
    unfolding sc_def by (rule Cons.IH)
  have top: "Max (insert bestScore (sc ` set (name # names))) = Max (insert (max bestScore s) (sc ` set names))"
    unfolding s_def by (simp add: Max_insert_insert del: Max_insert)
  have ge: "b \<le> Max (insert b (sc ` set names))" for b
    by simp
  have step: "matchLoop ratio normalized (name # names) (bestMatch, bestScore) =
      (if s > bestScore then matchLoop ratio normalized names (Some name, s)
       else matchLoop ratio normalized names (bestMatch, bestScore))"
    by (simp add: Let_def s_def sc_def)
  have goal: "matchLoop ratio normalized (name # names) (bestMatch, bestScore) =
      (if Max (insert bestScore (sc ` set (name # names))) > bestScore
       then find (\<lambda>x. sc x = Max (insert bestScore (sc ` set (name # names)))) (name # names)
       else bestMatch,
       Max (insert bestScore (sc ` set (name # names))))"
  proof (cases "s > bestScore")
    case True
    then have m: "max bestScore s = s" by simp
    from True ge [of s] have gt: "Max (insert s (sc ` set names)) > bestScore" by (rule less_le_trans)
    show ?thesis
    proof (cases "Max (insert s (sc ` set names)) > s")
      case True
      with \<open>s > bestScore\<close> gt show ?thesis
        unfolding step top m IH by (simp add: s_def [symmetric])
    next
      case False
      with ge [of s] have "Max (insert s (sc ` set names)) = s" by linarith
      with \<open>s > bestScore\<close> show ?thesis
        unfolding step top m IH by (simp add: s_def [symmetric])
    qed
  next
    case False
    then have m: "max bestScore s = bestScore" by simp
    show ?thesis
    proof (cases "Max (insert bestScore (sc ` set names)) > bestScore")
      case True
      with False have "s \<noteq> Max (insert bestScore (sc ` set names))" by linarith
      with False True show ?thesis
        unfolding step top m IH by (simp add: s_def [symmetric])
    next
      case gtF: False
      with False show ?thesis
        unfolding step top m IH by simp
    qed
  qed
  then show ?case unfolding sc_def .
qed

text \<open>
  C5, amended. The score returned is the highest score of the pool (0 for an empty
  pool). When that score is positive and at least the threshold, the match is the first
  entry of the pool, in pool order and as written there, that has this score; in every
  other case the match is absent.
\<close>

theorem best_match_by_name:
  "let sc = (\<lambda>name. ratio (normalizeEmployeeName timecardName) (normalizeEmployeeName name));
       best = Max (insert 0 (sc ` set breakSheetNames));
       result = matchEmployeeByName ratio timecardName breakSheetNames threshold
   in score result = best
      \<and> (\<forall>name \<in> set breakSheetNames. sc name \<le> best)
      \<and> (if int best \<ge> threshold \<and> best > 0
         then match result = find (\<lambda>name. sc name = best) breakSheetNames \<and> match result \<noteq> None
         else match result = None)"
proof -
  define sc where "sc = (\<lambda>name. ratio (normalizeEmployeeName timecardName) (normalizeEmployeeName name))"
  define best where "best = Max (insert 0 (sc ` set breakSheetNames))"
  have loop: "matchLoop ratio (normalizeEmployeeName timecardName) breakSheetNames (None, 0)
                = (if best > 0 then find (\<lambda>name. sc name = best) breakSheetNames else None, best)"
    unfolding matchLoop_best best_def sc_def by simp
  have le: "\<forall>name \<in> set breakSheetNames. sc name \<le> best"
    unfolding best_def by simp
  have found: "find (\<lambda>name. sc name = best) breakSheetNames \<noteq> None" if "best > 0"
  proof -
    have "best \<in> insert 0 (sc ` set breakSheetNames)"
      unfolding best_def by (rule Max_in) simp_all
    with that have "best \<in> sc ` set breakSheetNames" by simp
    then show ?thesis by (auto simp: find_None_iff)
  qed
  have sco: "score (matchEmployeeByName ratio timecardName breakSheetNames threshold) = best"
    unfolding matchEmployeeByName_def Let_def loop by simp
  have pos: "match (matchEmployeeByName ratio timecardName breakSheetNames threshold)
                   = find (\<lambda>name. sc name = best) breakSheetNames
                 \<and> match (matchEmployeeByName ratio timecardName breakSheetNames threshold) \<noteq> None"
    if "int best \<ge> threshold \<and> best > 0"
    using that found unfolding matchEmployeeByName_def Let_def loop by simp
  have neg: "match (matchEmployeeByName ratio timecardName breakSheetNames threshold) = None"
    if "\<not> (int best \<ge> threshold \<and> best > 0)"
    using that unfolding matchEmployeeByName_def Let_def loop by auto
  show ?thesis
    unfolding Let_def sc_def [symmetric] best_def [symmetric]
  proof (intro conjI)
    show "score (matchEmployeeByName ratio timecardName breakSheetNames threshold) = best"
      by (rule sco)
    show "\<forall>name \<in> set breakSheetNames. sc name \<le> best"
      by (rule le)
    show "if int best \<ge> threshold \<and> best > 0
          then match (matchEmployeeByName ratio timecardName breakSheetNames threshold)
                 = find (\<lambda>name. sc name = best) breakSheetNames
               \<and> match (matchEmployeeByName ratio timecardName breakSheetNames threshold) \<noteq> None
          else match (matchEmployeeByName ratio timecardName breakSheetNames threshold) = None"
    proof (cases "int best \<ge> threshold \<and> best > 0")
      case True
      show ?thesis by (subst if_P [OF True]) (rule pos [OF True])
    next
      case False
      show ?thesis by (subst if_not_P [OF False]) (rule neg [OF False])
    qed
  qed
qed

text \<open>
  Two entries of the pool share the highest score: the earlier one is returned at
  threshold 80, none at threshold 101.
\<close>

theorem best_match_by_name_witness:
  "matchEmployeeByName exactRatio ''Acosta, Geovanny''
     [''Smith,John'', ''Geovanny,Acosta'', ''Acosta Geovanny''] 80
   = \<lparr>match = Some ''Geovanny,Acosta'', score = 100\<rparr>
   \<and> matchEmployeeByName exactRatio ''Acosta, Geovanny''
     [''Smith,John'', ''Geovanny,Acosta'', ''Acosta Geovanny''] 101
   = \<lparr>match = None, score = 100\<rparr>"
proof -
  have sc: "exactRatio (normalizeEmployeeName ''Acosta, Geovanny'') (normalizeEmployeeName ''Smith,John'') = 0"
    "exactRatio (normalizeEmployeeName ''Acosta, Geovanny'') (normalizeEmployeeName ''Geovanny,Acosta'') = 100"
    "exactRatio (normalizeEmployeeName ''Acosta, Geovanny'') (normalizeEmployeeName ''Acosta Geovanny'') = 100"
    by code_simp+
  from best_match_by_name [of exactRatio "''Acosta, Geovanny''"
         "[''Smith,John'', ''Geovanny,Acosta'', ''Acosta Geovanny'']" 80]
       best_match_by_name [of exactRatio "''Acosta, Geovanny''"
         "[''Smith,John'', ''Geovanny,Acosta'', ''Acosta Geovanny'']" 101] sc
  show ?thesis
    by (simp add: Let_def NameMatchResult.equality)
qed

text \<open>
  C5 as stated fails where the highest score is 0 and the threshold is 0: the score
  reaches the threshold, and no entry is returned.
\<close>

theorem zero_score_is_no_match:
  "int (exactRatio (normalizeEmployeeName ''abc'') (normalizeEmployeeName ''xyz'')) \<ge> 0
   \<and> matchEmployeeByName exactRatio ''abc'' [''xyz''] 0 = \<lparr>match = None, score = 0\<rparr>"
  by code_simp


section \<open>Rows of the timecard table\<close>

lemma timecardRows_map_filter:
  "timecardRows parse parseFloat now rows =
     map (timecardEntry parse parseFloat now)
       (filter (\<lambda>row. \<not> (falsy (row ''Payroll Name'') \<or> falsy (row ''File Number'')
                          \<or> falsy (row ''Pay Date'')
                          \<or> (falsy (row ''Time In'') \<and> falsy (row ''Time Out'')))) rows)"
  by (induction rows) auto

lemma parseTimeString_unparseable:
  assumes "case field of None \<Rightarrow> True
           | Some s \<Rightarrow> trim s = []
               \<or> (\<forall>fmt \<in> {''hh:mm a'', ''h:mma'', ''h:mmaa''}. \<forall>d. parse s fmt now \<noteq> Valid d)"
  shows "parseTimeString parse field now = None"
  using assms by (auto simp: parseTimeString_def split: option.splits ParseOutcome.splits)

lemma parseTimeString_first_format:
  assumes "trim s \<noteq> []" and "parse s ''hh:mm a'' now = Valid d"
  shows "parseTimeString parse (Some s) now = Some d"
proof -
  from assms(1) have "s \<noteq> []" by (auto simp: trim_def)
  with assms show ?thesis by (simp add: parseTimeString_def)
qed

lemma parseTimeString_sound:
  assumes "parseTimeString parse field now = Some d"
  shows "\<exists>s. field = Some s \<and> trim s \<noteq> []
           \<and> (\<exists>fmt \<in> {''hh:mm a'', ''h:mma'', ''h:mmaa''}. parse s fmt now = Valid d)"
  using assms by (auto simp: parseTimeString_def split: option.splits ParseOutcome.splits if_splits)

lemma falsy_no_text: "falsy v \<Longrightarrow> \<not> (\<exists>s. v = Some s \<and> trim s \<noteq> [])"
  by (auto simp: falsy_def trim_def)


text \<open>
  C8 as stated fails at the row of white space: its name is blank and both clock fields
  are blank, and the row is kept, with an empty name and no clock time; its hours field
  is not a number, and the hours are 8.
\<close>

theorem white_space_row_is_kept:
  "trim (the (whiteSpaceRow ''Payroll Name'')) = []
   \<and> trim (the (whiteSpaceRow ''Time In'')) = [] \<and> trim (the (whiteSpaceRow ''Time Out'')) = []
   \<and> whiteSpaceRow ''Hours'' = Some ''8abc''
   \<and> parseTimecardCSV sampleParse sampleParseFloat 0 (Complete [whiteSpaceRow])
       = Inr [\<lparr>payrollName = '''', fileNumber = ''000126'', payDate = ''12/24/2025'',
               timeIn = None, timeOut = None, hours = 8\<rparr>]"
  by code_simp


text \<open>
  C8, amended. A completed table parse resolves, without an error, to the entries of a
  selection of the rows, in their order. The selection leaves out every row whose name,
  file number or pay date is missing or empty, or whose two clock fields are both
  missing or empty; it holds every row in which these three fields have text other than
  white space and one of the clock fields has. In the entry of a row the name, the file
  number and the date are the fields without the white space around them; the hours are
  the number that \<^verbatim>\<open>parseFloat\<close> reads from the field, and 0 when it reads none; a
  clock time is absent when the field is missing, is white space or is parsed by none
  of the three formats, it is the date of the first format when that one parses it, and
  it is always a date that one of the three formats gives.
\<close>

theorem timecard_rows_skipped_and_kept:
  "(\<exists>kept.
      parseTimecardCSV parse parseFloat now (Complete rows)
        = Inr (map (timecardEntry parse parseFloat now) (filter kept rows))
      \<and> (\<forall>row. falsy (row ''Payroll Name'') \<or> falsy (row ''File Number'') \<or> falsy (row ''Pay Date'')
                 \<or> (falsy (row ''Time In'') \<and> falsy (row ''Time Out'')) \<longrightarrow> \<not> kept row)
      \<and> (\<forall>row. (\<forall>k \<in> {''Payroll Name'', ''File Number'', ''Pay Date''}.
                    \<exists>s. row k = Some s \<and> trim s \<noteq> [])
                 \<and> (\<exists>k \<in> {''Time In'', ''Time Out''}. \<exists>s. row k = Some s \<and> trim s \<noteq> [])
                 \<longrightarrow> kept row))
   \<and> (\<forall>row s. row ''Payroll Name'' = Some s \<longrightarrow>
                 payrollName (timecardEntry parse parseFloat now row) = trim s)
   \<and> (\<forall>row s. row ''File Number'' = Some s \<longrightarrow>
                 TimecardEntry.fileNumber (timecardEntry parse parseFloat now row) = trim s)
   \<and> (\<forall>row s. row ''Pay Date'' = Some s \<longrightarrow>
                 payDate (timecardEntry parse parseFloat now row) = trim s)
   \<and> (\<forall>row. hours (timecardEntry parse parseFloat now row)
               = (case parseFloat (row ''Hours'') of None \<Rightarrow> 0 | Some h \<Rightarrow> h))
   \<and> (\<forall>row. (case row ''Time In'' of
                  None \<Rightarrow> True
                | Some s \<Rightarrow> trim s = []
                    \<or> (\<forall>fmt \<in> {''hh:mm a'', ''h:mma'', ''h:mmaa''}. \<forall>d. parse s fmt now \<noteq> Valid d))
               \<longrightarrow> timeIn (timecardEntry parse parseFloat now row) = None)
   \<and> (\<forall>row. (case row ''Time Out'' of
                  None \<Rightarrow> True
                | Some s \<Rightarrow> trim s = []
                    \<or> (\<forall>fmt \<in> {''hh:mm a'', ''h:mma'', ''h:mmaa''}. \<forall>d. parse s fmt now \<noteq> Valid d))
               \<longrightarrow> timeOut (timecardEntry parse parseFloat now row) = None)
   \<and> (\<forall>row s d. row ''Time In'' = Some s \<and> trim s \<noteq> [] \<and> parse s ''hh:mm a'' now = Valid d
                   \<longrightarrow> timeIn (timecardEntry parse parseFloat now row) = Some d)
   \<and> (\<forall>row s d. row ''Time Out'' = Some s \<and> trim s \<noteq> [] \<and> parse s ''hh:mm a'' now = Valid d
                   \<longrightarrow> timeOut (timecardEntry parse parseFloat now row) = Some d)
   \<and> (\<forall>row d. timeIn (timecardEntry parse parseFloat now row) = Some d \<longrightarrow>
                 (\<exists>s. row ''Time In'' = Some s \<and> trim s \<noteq> []
                    \<and> (\<exists>fmt \<in> {''hh:mm a'', ''h:mma'', ''h:mmaa''}. parse s fmt now = Valid d)))
   \<and> (\<forall>row d. timeOut (timecardEntry parse parseFloat now row) = Some d \<longrightarrow>
                 (\<exists>s. row ''Time Out'' = Some s \<and> trim s \<noteq> []
                    \<and> (\<exists>fmt \<in> {''hh:mm a'', ''h:mma'', ''h:mmaa''}. parse s fmt now = Valid d)))"
proof (intro conjI allI impI)
  let ?kept = "\<lambda>row :: Row. \<not> (falsy (row ''Payroll Name'') \<or> falsy (row ''File Number'')
                          \<or> falsy (row ''Pay Date'')
                          \<or> (falsy (row ''Time In'') \<and> falsy (row ''Time Out'')))"
  have "parseTimecardCSV parse parseFloat now (Complete rows)
          = Inr (map (timecardEntry parse parseFloat now) (filter ?kept rows))"
    by (simp add: parseTimecardCSV_def timecardRows_map_filter)
  moreover have "\<forall>row. falsy (row ''Payroll Name'') \<or> falsy (row ''File Number'')
                      \<or> falsy (row ''Pay Date'')
                      \<or> (falsy (row ''Time In'') \<and> falsy (row ''Time Out'')) \<longrightarrow> \<not> ?kept row"
    by blast
  moreover have "\<forall>row. (\<forall>k \<in> {''Payroll Name'', ''File Number'', ''Pay Date''}.
                    \<exists>s. row k = Some s \<and> trim s \<noteq> [])
                 \<and> (\<exists>k \<in> {''Time In'', ''Time Out''}. \<exists>s. row k = Some s \<and> trim s \<noteq> [])
                 \<longrightarrow> ?kept row"
    using falsy_no_text by blast
  ultimately show "\<exists>kept.
      parseTimecardCSV parse parseFloat now (Complete rows)
        = Inr (map (timecardEntry parse parseFloat now) (filter kept rows))
      \<and> (\<forall>row. falsy (row ''Payroll Name'') \<or> falsy (row ''File Number'') \<or> falsy (row ''Pay Date'')
                 \<or> (falsy (row ''Time In'') \<and> falsy (row ''Time Out'')) \<longrightarrow> \<not> kept row)
      \<and> (\<forall>row. (\<forall>k \<in> {''Payroll Name'', ''File Number'', ''Pay Date''}.
                    \<exists>s. row k = Some s \<and> trim s \<noteq> [])
                 \<and> (\<exists>k \<in> {''Time In'', ''Time Out''}. \<exists>s. row k = Some s \<and> trim s \<noteq> [])
                 \<longrightarrow> kept row)"
    by (intro exI [of _ ?kept] conjI)
next
  fix row :: Row and s
  assume "row ''Payroll Name'' = Some s"
  then show "payrollName (timecardEntry parse parseFloat now row) = trim s"
    by (simp add: timecardEntry_def Let_def)
next
  fix row :: Row and s
  assume "row ''File Number'' = Some s"
  then show "TimecardEntry.fileNumber (timecardEntry parse parseFloat now row) = trim s"
    by (simp add: timecardEntry_def Let_def)
next
  fix row :: Row and s
  assume "row ''Pay Date'' = Some s"
  then show "payDate (timecardEntry parse parseFloat now row) = trim s"
    by (simp add: timecardEntry_def Let_def)
next
  fix row :: Row
  show "hours (timecardEntry parse parseFloat now row)
          = (case parseFloat (row ''Hours'') of None \<Rightarrow> 0 | Some h \<Rightarrow> h)"
    by (simp add: timecardEntry_def Let_def split: option.split)
next
  fix row :: Row
  assume "case row ''Time In'' of
            None \<Rightarrow> True
          | Some s \<Rightarrow> trim s = []
              \<or> (\<forall>fmt \<in> {''hh:mm a'', ''h:mma'', ''h:mmaa''}. \<forall>d. parse s fmt now \<noteq> Valid d)"
  then have "parseTimeString parse (row ''Time In'') now = None"
    by (rule parseTimeString_unparseable)
  then show "timeIn (timecardEntry parse parseFloat now row) = None"
    by (simp add: timecardEntry_def)
next
  fix row :: Row
  assume "case row ''Time Out'' of
            None \<Rightarrow> True
          | Some s \<Rightarrow> trim s = []
              \<or> (\<forall>fmt \<in> {''hh:mm a'', ''h:mma'', ''h:mmaa''}. \<forall>d. parse s fmt now \<noteq> Valid d)"
  then have "parseTimeString parse (row ''Time Out'') now = None"
    by (rule parseTimeString_unparseable)
  then show "timeOut (timecardEntry parse parseFloat now row) = None"
    by (simp add: timecardEntry_def)
next
  fix row :: Row and s d
  assume "row ''Time In'' = Some s \<and> trim s \<noteq> [] \<and> parse s ''hh:mm a'' now = Valid d"
  then show "timeIn (timecardEntry parse parseFloat now row) = Some d"
    by (simp add: timecardEntry_def parseTimeString_first_format)
next
  fix row :: Row and s d
  assume "row ''Time Out'' = Some s \<and> trim s \<noteq> [] \<and> parse s ''hh:mm a'' now = Valid d"
  then show "timeOut (timecardEntry parse parseFloat now row) = Some d"
    by (simp add: timecardEntry_def parseTimeString_first_format)
next
  fix row :: Row and d
  assume "timeIn (timecardEntry parse parseFloat now row) = Some d"
  then have "parseTimeString parse (row ''Time In'') now = Some d"
    by (simp add: timecardEntry_def)
  then show "\<exists>s. row ''Time In'' = Some s \<and> trim s \<noteq> []
                \<and> (\<exists>fmt \<in> {''hh:mm a'', ''h:mma'', ''h:mmaa''}. parse s fmt now = Valid d)"
    by (rule parseTimeString_sound)
next
  fix row :: Row and d
  assume "timeOut (timecardEntry parse parseFloat now row) = Some d"
  then have "parseTimeString parse (row ''Time Out'') now = Some d"
    by (simp add: timecardEntry_def)
  then show "\<exists>s. row ''Time Out'' = Some s \<and> trim s \<noteq> []
                \<and> (\<exists>fmt \<in> {''hh:mm a'', ''h:mma'', ''h:mmaa''}. parse s fmt now = Valid d)"
    by (rule parseTimeString_sound)
qed


text \<open>
  The table of three rows: the theorem fixes the selection (the first row only) and
  every field of the one entry.
\<close>

theorem timecard_rows_skipped_and_kept_witness:
  "parseTimecardCSV sampleParse sampleParseFloat 0 (Complete sampleRows)
   = Inr [\<lparr>payrollName = ''Acosta, Geovanny'', fileNumber = ''000123'', payDate = ''12/24/2025'',
           timeIn = Some 32400000, timeOut = None, hours = 0\<rparr>]"
proof -
  define r1 :: Row where "r1 =
      map_of [(''Payroll Name'', ''Acosta, Geovanny''), (''File Number'', ''000123''),
              (''Pay Date'', ''12/24/2025''), (''Time In'', ''09:00 AM''), (''Time Out'', ''late''),
              (''Hours'', ''n/a'')]"
  define r2 :: Row where "r2 =
      map_of [(''Payroll Name'', ''''), (''File Number'', ''000124''),
              (''Pay Date'', ''12/24/2025''), (''Time In'', ''09:00 AM''), (''Time Out'', ''''),
              (''Hours'', ''8'')]"
  define r3 :: Row where "r3 =
      map_of [(''Payroll Name'', ''Smith, John''), (''File Number'', ''000125''),
              (''Pay Date'', ''12/24/2025''), (''Time In'', ''''), (''Hours'', ''8'')]"
  let ?e = "timecardEntry sampleParse sampleParseFloat 0 r1"
  have rows: "sampleRows = [r1, r2, r3]"
    by (simp add: sampleRows_def r1_def r2_def r3_def)
  have fields: "r1 ''Payroll Name'' = Some ''Acosta, Geovanny''" "r1 ''File Number'' = Some ''000123''"
    "r1 ''Pay Date'' = Some ''12/24/2025''" "r1 ''Time In'' = Some ''09:00 AM''"
    "r1 ''Time Out'' = Some ''late''" "r1 ''Hours'' = Some ''n/a''"
    by (simp_all add: r1_def)
  have trims: "trim ''Acosta, Geovanny'' = ''Acosta, Geovanny''" "trim ''000123'' = ''000123''"
    "trim ''12/24/2025'' = ''12/24/2025''" "trim ''09:00 AM'' = ''09:00 AM''"
    by code_simp+
  have nan: "sampleParseFloat (Some ''n/a'') = None"
    by code_simp
  have nine: "sampleParse ''09:00 AM'' ''hh:mm a'' 0 = Valid 32400000"
    and late: "\<forall>fmt \<in> {''hh:mm a'', ''h:mma'', ''h:mmaa''}. \<forall>d. sampleParse ''late'' fmt 0 \<noteq> Valid d"
    by (simp_all add: sampleParse_def)
  note all = timecard_rows_skipped_and_kept [of sampleParse sampleParseFloat 0 sampleRows]
  note c2 = all [THEN conjunct2]
  note c3 = c2 [THEN conjunct2]
  note c4 = c3 [THEN conjunct2]
  note c5 = c4 [THEN conjunct2]
  note c6 = c5 [THEN conjunct2]
  note c7 = c6 [THEN conjunct2]
  note c8 = c7 [THEN conjunct2]
  note nameIs = c2 [THEN conjunct1, rule_format]
  note fileNo = c3 [THEN conjunct1, rule_format]
  note dateIs = c4 [THEN conjunct1, rule_format]
  note hrs = c5 [THEN conjunct1, rule_format]
  note outNone = c7 [THEN conjunct1, rule_format]
  note inSome = c8 [THEN conjunct1, rule_format]
  from all [THEN conjunct1] obtain kept where
    sel3: "parseTimecardCSV sampleParse sampleParseFloat 0 (Complete sampleRows)
             = Inr (map (timecardEntry sampleParse sampleParseFloat 0) (filter kept sampleRows))
           \<and> (\<forall>row. falsy (row ''Payroll Name'') \<or> falsy (row ''File Number'')
                 \<or> falsy (row ''Pay Date'')
                 \<or> (falsy (row ''Time In'') \<and> falsy (row ''Time Out'')) \<longrightarrow> \<not> kept row)
           \<and> (\<forall>row. (\<forall>k \<in> {''Payroll Name'', ''File Number'', ''Pay Date''}.
                    \<exists>s. row k = Some s \<and> trim s \<noteq> [])
                 \<and> (\<exists>k \<in> {''Time In'', ''Time Out''}. \<exists>s. row k = Some s \<and> trim s \<noteq> [])
                 \<longrightarrow> kept row)" ..
  note out = sel3 [THEN conjunct1]
  note skip = sel3 [THEN conjunct2, THEN conjunct1, rule_format]
  note keep = sel3 [THEN conjunct2, THEN conjunct2, rule_format]
  have "kept r1"
    by (rule keep [of r1]) (simp add: fields trims)
  moreover have "\<not> kept r2"
    by (rule skip [of r2]) (simp add: r2_def falsy_def)
  moreover have "\<not> kept r3"
    by (rule skip [of r3]) (simp add: r3_def falsy_def)
  ultimately have sel: "filter kept sampleRows = [r1]"
    by (simp add: rows)
  have "payrollName ?e = ''Acosta, Geovanny''"
    using nameIs [of r1, OF fields(1)] by (simp add: trims)
  moreover have "TimecardEntry.fileNumber ?e = ''000123''"
    using fileNo [of r1, OF fields(2)] by (simp add: trims)
  moreover have "payDate ?e = ''12/24/2025''"
    using dateIs [of r1, OF fields(3)] by (simp add: trims)
  moreover have "timeIn ?e = Some 32400000"
    by (rule inSome [of r1 "''09:00 AM''"]) (simp add: fields trims nine)
  moreover have "timeOut ?e = None"
    by (rule outNone [of r1]) (simp add: fields late)
  moreover have "hours ?e = 0"
    using hrs [of r1] by (simp add: fields nan)
  ultimately have "?e = \<lparr>payrollName = ''Acosta, Geovanny'', fileNumber = ''000123'',
                          payDate = ''12/24/2025'', timeIn = Some 32400000, timeOut = None,
                          hours = 0\<rparr>"
    by (intro TimecardEntry.equality) simp_all
  with out sel show ?thesis by simp
qed

section \<open>Normalization of names\<close>

text \<open>The two spellings of one name of the specification normalize to the same text.\<close>

lemma normalize_comma_and_order:
  "normalizeEmployeeName ''Acosta, Geovanny'' = ''acosta geovanny''
   \<and> normalizeEmployeeName ''Geovanny Acosta'' = ''acosta geovanny''
   \<and> normalizeEmployeeName ''Geovanny,Acosta'' = ''acosta geovanny''"
  by code_simp

text \<open>
  C6, at the name \<open>Smith - Jones, Ann\<close>: the hyphen is a token of its own, it passes the
  filter of empty tokens and only then loses its one character, so the normal form
  starts with a space; normalizing once more removes that space.
\<close>

theorem normalize_twice_differs:
  "normalizeEmployeeName ''Smith - Jones, Ann'' = '' ann jones smith''
   \<and> normalizeEmployeeName (normalizeEmployeeName ''Smith - Jones, Ann'') = ''ann jones smith''"
  by code_simp

section \<open>Inputs are not changed\<close>

lemma unchangedBelow_refl: "unchangedBelow n s s"
  by (simp add: unchangedBelow_def)

lemma unchangedBelow_trans:
  "unchangedBelow n s s' \<Longrightarrow> unchangedBelow n s' s'' \<Longrightarrow> unchangedBelow n s s''"
  by (simp add: unchangedBelow_def)

lemma unchangedBelow_mono:
  assumes "unchangedBelow n s s'" and "m \<le> n"
  shows "unchangedBelow m s s'"
proof -
  from assms(1) have "take m (take n (entryArrays s')) = take m (take n (entryArrays s))"
    by (simp add: unchangedBelow_def)
  with assms(2) have "take m (entryArrays s') = take m (entryArrays s)"
    by (simp add: min_def)
  with assms(1) show ?thesis by (simp add: unchangedBelow_def)
qed

lemma unchangedBelow_nth:
  assumes "unchangedBelow n s s'" and "a < n"
  shows "entryArrays s' ! a = entryArrays s ! a"
proof -
  from assms(2) have "entryArrays s' ! a = take n (entryArrays s') ! a" by simp
  also from assms(1) have "\<dots> = take n (entryArrays s) ! a" by (simp add: unchangedBelow_def)
  also from assms(2) have "\<dots> = entryArrays s ! a" by simp
  finally show ?thesis .
qed

lemma newArray_store:
  "newArray elems s = (a, s') \<Longrightarrow>
     a = length (entryArrays s) \<and> entryArrays s' = entryArrays s @ [elems]
     \<and> breakArrays s' = breakArrays s"
  by (auto simp: newArray_def)

lemma newArray_unchanged:
  "newArray elems s = (a, s') \<Longrightarrow> n \<le> length (entryArrays s) \<Longrightarrow> unchangedBelow n s s'"
  by (auto simp: newArray_def unchangedBelow_def)

lemma arrayPush_unchanged: "n \<le> a \<Longrightarrow> unchangedBelow n s (arrayPush a entry s)"
  by (simp add: arrayPush_def unchangedBelow_def)

lemma arraySortByTimeIn_unchanged: "n \<le> a \<Longrightarrow> unchangedBelow n s (arraySortByTimeIn a s)"
  by (simp add: arraySortByTimeIn_def unchangedBelow_def)

lemma mapSet_same: "map_of m k = Some a \<Longrightarrow> mapSet k a m = m"
  by (induction m) (auto split: if_splits)

lemma mapSet_new: "map_of m k = None \<Longrightarrow> mapSet k a m = m @ [(k, a)]"
  by (induction m) (auto split: if_splits)

lemma mapPush_new: "k \<notin> fst ` set m \<Longrightarrow> mapPush k e m = m @ [(k, [e])]"
  by (induction m) auto

lemma push_existing_group:
  assumes "(k, a) \<in> set m" and "distinct (map fst m)" and "distinct (map snd m)"
    and "list_all (\<lambda>(k, a). a < length H) m"
  shows "map (\<lambda>(k', a'). (k', H[a := H ! a @ [e]] ! a')) m
         = mapPush k e (map (\<lambda>(k', a'). (k', H ! a')) m)"
  using assms
proof (induction m)
  case Nil
  then show ?case by simp
next
  case (Cons p m)
  obtain k1 a1 where p: "p = (k1, a1)" by (cases p)
  show ?case
  proof (cases "k1 = k")
    case True
    with Cons.prems p have a1: "a1 = a"
      by (auto simp: image_iff)
    from Cons.prems p a1 have "a \<notin> snd ` set m" by auto
    then have "map (\<lambda>(k', a'). (k', H[a := H ! a @ [e]] ! a')) m = map (\<lambda>(k', a'). (k', H ! a')) m"
      by (intro map_cong refl) (auto simp: image_iff)
    with Cons.prems p a1 True show ?thesis by simp
  next
    case False
    with Cons.prems p have mem: "(k, a) \<in> set m" by auto
    with Cons.prems p have "a1 \<noteq> a" by (auto simp: image_iff)
    with Cons.prems p False mem Cons.IH show ?thesis by simp
  qed
qed


lemma groupRound_inv:
  assumes inv: "groupInv n s0 xs (m, s)"
  shows "groupInv n s0 (xs @ [e]) (groupRound (m, s) e)"
proof -
  let ?k = "TimecardEntry.fileNumber e"
  let ?H = "entryArrays s"
  from inv have unch: "unchangedBelow n s0 s" and len: "n \<le> length ?H"
    and bounds: "list_all (\<lambda>(k, a). n \<le> a \<and> a < length ?H) m"
    and dk: "distinct (map fst m)" and da: "distinct (map snd m)"
    and content: "map (\<lambda>(k, a). (k, ?H ! a)) m = groupByFileNumber xs"
    by (simp_all add: groupInv_def)
  from bounds have below: "list_all (\<lambda>(k, a). a < length ?H) m"
    by (auto simp: list_all_iff)
  show ?thesis
  proof (cases "map_of m ?k")
    case (Some a)
    then have mem: "(?k, a) \<in> set m" by (rule map_of_SomeD)
    with bounds have a: "n \<le> a" "a < length ?H" by (auto simp: list_all_iff)
    have round: "groupRound (m, s) e = (m, arrayPush a e s)"
      using Some by (simp add: groupRound_def mapSet_same)
    have H': "entryArrays (arrayPush a e s) = ?H[a := ?H ! a @ [e]]"
      by (simp add: arrayPush_def)
    have "unchangedBelow n s0 (arrayPush a e s)"
      using unch arrayPush_unchanged [OF a(1)] by (rule unchangedBelow_trans)
    moreover have "list_all (\<lambda>(k, a'). n \<le> a' \<and> a' < length (entryArrays (arrayPush a e s))) m"
      using bounds by (simp add: H')
    moreover have "map (\<lambda>(k, a'). (k, entryArrays (arrayPush a e s) ! a')) m
                   = groupByFileNumber (xs @ [e])"
      unfolding H' groupByFileNumber_snoc content [symmetric]
      using mem dk da below by (rule push_existing_group)
    ultimately show ?thesis
      unfolding round using dk da len by (simp add: groupInv_def H')
  next
    case None
    then have fresh: "?k \<notin> fst ` set m" by (simp add: map_of_eq_None_iff)
    let ?a = "length ?H"
    let ?s' = "arrayPush ?a e (snd (newArray [] s))"
    have round: "groupRound (m, s) e = (m @ [(?k, ?a)], ?s')"
      using None by (simp add: groupRound_def mapSet_new newArray_def)
    have H': "entryArrays ?s' = ?H @ [[e]]"
      by (simp add: arrayPush_def newArray_def)
    have B': "breakArrays ?s' = breakArrays s"
      by (simp add: arrayPush_def newArray_def)
    have "unchangedBelow n s0 ?s'"
      using unch len unfolding unchangedBelow_def H' B' by simp
    moreover have "list_all (\<lambda>(k, a'). n \<le> a' \<and> a' < length (entryArrays ?s')) (m @ [(?k, ?a)])"
      using bounds len unfolding H' by (auto simp: list_all_iff)
    moreover have "distinct (map fst (m @ [(?k, ?a)]))"
      using dk fresh by simp
    moreover have "distinct (map snd (m @ [(?k, ?a)]))"
      using da below by (auto simp: list_all_iff)
    moreover have "map (\<lambda>(k, a'). (k, entryArrays ?s' ! a')) (m @ [(?k, ?a)])
                   = groupByFileNumber (xs @ [e])"
    proof -
      have "map (\<lambda>(k, a'). (k, (?H @ [[e]]) ! a')) m = map (\<lambda>(k, a'). (k, ?H ! a')) m"
        using below by (intro map_cong refl) (auto simp: list_all_iff nth_append)
      moreover have "?k \<notin> fst ` set (groupByFileNumber xs)"
        using fresh unfolding content [symmetric] by (auto simp: image_iff)
      ultimately show ?thesis
        unfolding H' groupByFileNumber_snoc
        by (simp add: mapPush_new content)
    qed
    ultimately show ?thesis
      unfolding round using len by (simp add: groupInv_def H')
  qed
qed

lemma group_fold_inv:
  "groupInv n s0 xs st \<Longrightarrow> groupInv n s0 (xs @ ys) (foldl groupRound st ys)"
proof (induction ys arbitrary: xs st)
  case Nil
  then show ?case by simp
next
  case (Cons y ys)
  obtain m s where st: "st = (m, s)" by (cases st)
  from Cons.prems have "groupInv n s0 (xs @ [y]) (groupRound st y)"
    unfolding st by (rule groupRound_inv)
  from Cons.IH [OF this] show ?case by simp
qed

lemma groupArrays_inv:
  "groupInv (length (entryArrays s)) s (entryArrays s ! dateEntries) (groupArrays dateEntries s)"
proof -
  have "groupInv (length (entryArrays s)) s [] ([], s)"
    by (simp add: groupInv_def unchangedBelow_refl groupByFileNumber_def)
  from group_fold_inv [OF this] show ?thesis
    by (simp add: groupArrays_def)
qed


lemma groupArrays_reads_fixed:
  assumes "dateEntries < length (entryArrays s)"
  shows "entryArrays (snd (foldl groupRound ([], s) (take i (entryArrays s ! dateEntries))))
           ! dateEntries
         = entryArrays s ! dateEntries"
proof -
  obtain m s' where st: "foldl groupRound ([], s) (take i (entryArrays s ! dateEntries)) = (m, s')"
    by (cases "foldl groupRound ([], s) (take i (entryArrays s ! dateEntries))")
  have "groupInv (length (entryArrays s)) s [] ([], s)"
    by (simp add: groupInv_def unchangedBelow_refl groupByFileNumber_def)
  from group_fold_inv [OF this, of "take i (entryArrays s ! dateEntries)"] st
  have "unchangedBelow (length (entryArrays s)) s s'"
    by (simp add: groupInv_def)
  from unchangedBelow_nth [OF this assms] st show ?thesis by simp
qed

lemma gapsRound_step:
  "gapsRound diffMin (gaps, s) (fileNo, a) =
     (gaps @ employeeGaps diffMin fileNo (sortedByTimeIn (entryArrays s ! a)),
      s\<lparr>entryArrays := entryArrays s @ [sortedByTimeIn (entryArrays s ! a)]\<rparr>)"
  by (simp add: gapsRound_def arrayFilter_def newArray_def arraySortByTimeIn_def sortedByTimeIn_def)

lemma gaps_fold:
  assumes "list_all (\<lambda>(k, a). a < length (entryArrays s)) m"
  shows "\<exists>s'. foldl (gapsRound diffMin) (gaps, s) m =
           (gaps @ concat (map (\<lambda>(k, a). employeeGaps diffMin k (sortedByTimeIn (entryArrays s ! a))) m),
            s')
         \<and> unchangedBelow (length (entryArrays s)) s s'"
  using assms
proof (induction m arbitrary: gaps s)
  case Nil
  then show ?case by (simp add: unchangedBelow_refl)
next
  case (Cons p m)
  obtain k a where p: "p = (k, a)" by (cases p)
  let ?H = "entryArrays s"
  let ?s2 = "s\<lparr>entryArrays := ?H @ [sortedByTimeIn (?H ! a)]\<rparr>"
  let ?g2 = "gaps @ employeeGaps diffMin k (sortedByTimeIn (?H ! a))"
  from Cons.prems have below: "list_all (\<lambda>(k, a). a < length ?H) m"
    by simp
  then have "list_all (\<lambda>(k, a). a < length (entryArrays ?s2)) m"
    by (auto simp: list_all_iff)
  from Cons.IH [OF this, of ?g2] obtain s' where
    fold: "foldl (gapsRound diffMin) (?g2, ?s2) m =
             (?g2 @ concat (map (\<lambda>(k, a). employeeGaps diffMin k
                                   (sortedByTimeIn (entryArrays ?s2 ! a))) m), s')"
    and unch: "unchangedBelow (length (entryArrays ?s2)) ?s2 s'"
    by blast
  have same: "map (\<lambda>(k, a). employeeGaps diffMin k (sortedByTimeIn (entryArrays ?s2 ! a))) m
              = map (\<lambda>(k, a). employeeGaps diffMin k (sortedByTimeIn (?H ! a))) m"
    using below by (intro map_cong refl) (auto simp: list_all_iff nth_append)
  have "unchangedBelow (length ?H) s ?s2"
    by (simp add: unchangedBelow_def)
  moreover from unch have "unchangedBelow (length ?H) ?s2 s'"
    by (rule unchangedBelow_mono) simp
  ultimately have "unchangedBelow (length ?H) s s'"
    by (rule unchangedBelow_trans)
  moreover have "foldl (gapsRound diffMin) (gaps, s) (p # m) =
      (gaps @ concat (map (\<lambda>(k, a). employeeGaps diffMin k (sortedByTimeIn (?H ! a))) (p # m)), s')"
  proof -
    have "foldl (gapsRound diffMin) (gaps, s) (p # m) = foldl (gapsRound diffMin) (?g2, ?s2) m"
      unfolding p by (simp add: gapsRound_step)
    also have "\<dots> = (?g2 @ concat (map (\<lambda>(k, a). employeeGaps diffMin k
                                          (sortedByTimeIn (entryArrays ?s2 ! a))) m), s')"
      by (rule fold)
    also have "\<dots> = (gaps @ concat (map (\<lambda>(k, a). employeeGaps diffMin k
                                          (sortedByTimeIn (?H ! a))) (p # m)), s')"
      unfolding same p by simp
    finally show ?thesis .
  qed
  ultimately show ?case by blast
qed

lemma detectTimecardGapsIn_pure:
  assumes "entries < length (entryArrays s)"
  shows "\<exists>s'. detectTimecardGapsIn diffMin entries date s =
           (detectTimecardGaps diffMin (entryArrays s ! entries) date, s')
         \<and> unchangedBelow (length (entryArrays s)) s s'"
proof -
  let ?H = "entryArrays s"
  let ?dateEntries = "filter (\<lambda>e. payDate e = date) (?H ! entries)"
  let ?s1 = "s\<lparr>entryArrays := ?H @ [?dateEntries]\<rparr>"
  have filt: "arrayFilter (\<lambda>e. payDate e = date) entries s = (length ?H, ?s1)"
    by (simp add: arrayFilter_def newArray_def)
  obtain m s2 where grp: "groupArrays (length ?H) ?s1 = (m, s2)"
    by (cases "groupArrays (length ?H) ?s1")
  from groupArrays_inv [of ?s1 "length ?H"] grp
  have inv: "groupInv (Suc (length ?H)) ?s1 ?dateEntries (m, s2)" by simp
  then have unch2: "unchangedBelow (Suc (length ?H)) ?s1 s2"
    and bounds: "list_all (\<lambda>(k, a). Suc (length ?H) \<le> a \<and> a < length (entryArrays s2)) m"
    and content: "map (\<lambda>(k, a). (k, entryArrays s2 ! a)) m = groupByFileNumber ?dateEntries"
    by (simp_all add: groupInv_def)
  from bounds have "list_all (\<lambda>(k, a). a < length (entryArrays s2)) m"
    by (auto simp: list_all_iff)
  from gaps_fold [OF this, of diffMin "[]"] obtain s' where
    fold: "foldl (gapsRound diffMin) ([], s2) m =
             (concat (map (\<lambda>(k, a). employeeGaps diffMin k (sortedByTimeIn (entryArrays s2 ! a))) m), s')"
    and unch3: "unchangedBelow (length (entryArrays s2)) s2 s'"
    by auto
  have "concat (map (\<lambda>(k, a). employeeGaps diffMin k (sortedByTimeIn (entryArrays s2 ! a))) m)
        = concat (map (\<lambda>(k, es). employeeGaps diffMin k (sortedByTimeIn es))
                    (map (\<lambda>(k, a). (k, entryArrays s2 ! a)) m))"
    by (simp add: comp_def case_prod_unfold)
  also have "\<dots> = detectTimecardGaps diffMin (?H ! entries) date"
    unfolding content by (simp add: detectTimecardGaps_def)
  finally have result: "detectTimecardGapsIn diffMin entries date s =
      (detectTimecardGaps diffMin (?H ! entries) date, s')"
    using fold by (simp add: detectTimecardGapsIn_def filt grp)
  have "unchangedBelow (length ?H) s ?s1"
    by (simp add: unchangedBelow_def)
  moreover from unch2 have "unchangedBelow (length ?H) ?s1 s2"
    by (rule unchangedBelow_mono) simp
  moreover have "length ?H \<le> length (entryArrays s2)"
    using unch2 by (simp add: unchangedBelow_def)
  with unch3 have "unchangedBelow (length ?H) s2 s'"
    by (rule unchangedBelow_mono)
  ultimately have "unchangedBelow (length ?H) s s'"
    by (blast intro: unchangedBelow_trans)
  with result show ?thesis by blast
qed

lemma generateDiscrepancyReportIn_pure:
  assumes "timecardEntries < length (entryArrays s)"
  shows "\<exists>s'. generateDiscrepancyReportIn ratio diffMin now timecardEntries breakSheetEntries date tol s =
           (generateDiscrepancyReport ratio diffMin now (entryArrays s ! timecardEntries)
              (breakArrays s ! breakSheetEntries) date tol, s')
         \<and> unchangedBelow (length (entryArrays s)) s s'"
proof -
  let ?H = "entryArrays s"
  from detectTimecardGapsIn_pure [OF assms, of diffMin date] obtain s1 where
    det: "detectTimecardGapsIn diffMin timecardEntries date s =
            (detectTimecardGaps diffMin (?H ! timecardEntries) date, s1)"
    and unch1: "unchangedBelow (length ?H) s s1"
    by blast
  let ?H1 = "entryArrays s1"
  from unch1 assms have same: "?H1 ! timecardEntries = ?H ! timecardEntries"
    by (rule unchangedBelow_nth)
  let ?dateEntries = "filter (\<lambda>e. payDate e = date) (?H ! timecardEntries)"
  let ?s2 = "s1\<lparr>entryArrays := ?H1 @ [?dateEntries]\<rparr>"
  have filt: "arrayFilter (\<lambda>e. payDate e = date) timecardEntries s1 = (length ?H1, ?s2)"
    by (simp add: arrayFilter_def newArray_def same)
  obtain m s3 where grp: "groupArrays (length ?H1) ?s2 = (m, s3)"
    by (cases "groupArrays (length ?H1) ?s2")
  from groupArrays_inv [of ?s2 "length ?H1"] grp
  have inv: "groupInv (Suc (length ?H1)) ?s2 ?dateEntries (m, s3)" by simp
  then have unch3: "unchangedBelow (Suc (length ?H1)) ?s2 s3"
    and content: "map (\<lambda>(k, a). (k, entryArrays s3 ! a)) m = groupByFileNumber ?dateEntries"
    by (simp_all add: groupInv_def)
  have "unchangedBelow (length ?H1) s1 ?s2"
    by (simp add: unchangedBelow_def)
  moreover from unch3 have "unchangedBelow (length ?H1) ?s2 s3"
    by (rule unchangedBelow_mono) simp
  ultimately have "unchangedBelow (length ?H1) s1 s3"
    by (rule unchangedBelow_trans)
  moreover have "length ?H \<le> length ?H1"
    using unch1 by (simp add: unchangedBelow_def)
  ultimately have "unchangedBelow (length ?H) s1 s3"
    by (rule unchangedBelow_mono)
  with unch1 have unch: "unchangedBelow (length ?H) s s3"
    by (rule unchangedBelow_trans)
  then have breaks: "breakArrays s3 = breakArrays s"
    by (simp add: unchangedBelow_def)
  have res: "map (\<lambda>(fileNo, entries). employeeResult ratio G B N tol (fileNo, entryArrays s3 ! entries)) m
        = map (employeeResult ratio G B N tol) (groupByFileNumber ?dateEntries)" for G B N
    unfolding content [symmetric] by (simp add: comp_def case_prod_unfold)
  have "generateDiscrepancyReportIn ratio diffMin now timecardEntries breakSheetEntries date tol s =
           (generateDiscrepancyReport ratio diffMin now (?H ! timecardEntries)
              (breakArrays s ! breakSheetEntries) date tol, s3)"
    by (simp add: generateDiscrepancyReportIn_def generateDiscrepancyReport_def det filt grp breaks
          res Let_def)
  with unch show ?thesis by blast
qed

text \<open>
  C10. Called on arrays of the store, \<^verbatim>\<open>detectTimecardGaps\<close> and
  \<^verbatim>\<open>generateDiscrepancyReport\<close> return what the functions on lists return, and every
  array that the store held before the call, the timecard entries and the break-sheet
  entries among them, holds the same records in the same order after it: the calls write
  to arrays of their own making only. \<^verbatim>\<open>matchEmployeeByName\<close> and \<^verbatim>\<open>compareBreakRecords\<close>
  run inside the second call.
\<close>

theorem inputs_not_mutated:
  assumes "timecardEntries < length (entryArrays s)"
  shows "(let (gaps, s') = detectTimecardGapsIn differenceInMinutes timecardEntries date s
          in gaps = detectTimecardGaps differenceInMinutes (entryArrays s ! timecardEntries) date
             \<and> take (length (entryArrays s)) (entryArrays s') = entryArrays s
             \<and> breakArrays s' = breakArrays s)
       \<and> (let (report, s') = generateDiscrepancyReportIn ratio differenceInMinutes now
                                timecardEntries breakSheetEntries date toleranceMinutes s
          in report = generateDiscrepancyReport ratio differenceInMinutes now
                        (entryArrays s ! timecardEntries) (breakArrays s ! breakSheetEntries)
                        date toleranceMinutes
             \<and> take (length (entryArrays s)) (entryArrays s') = entryArrays s
             \<and> breakArrays s' = breakArrays s)"
  using detectTimecardGapsIn_pure [OF assms, of differenceInMinutes date]
    generateDiscrepancyReportIn_pure [OF assms, of ratio differenceInMinutes now breakSheetEntries
      date toleranceMinutes]
  by (auto simp: unchangedBelow_def)

text \<open>
  The report on the sample store: five arrays are made, and the two arrays at address
  0 are the sample timecard and the sample break sheet as before.
\<close>

lemma sample_store_after:
  "length (entryArrays (snd (generateDiscrepancyReportIn exactRatio wholeMinutes 0 0 0
                               ''12/24/2025'' 5 sampleStore))) = 6"
  by code_simp

theorem inputs_not_mutated_witness:
  "(case generateDiscrepancyReportIn exactRatio wholeMinutes 0 0 0 ''12/24/2025'' 5 sampleStore of
      (report, s') \<Rightarrow>
        length (entryArrays s') = 6 \<and> take 1 (entryArrays s') = [sampleTimecard]
        \<and> breakArrays s' = [sampleBreakSheet]
        \<and> report = generateDiscrepancyReport exactRatio wholeMinutes 0 sampleTimecard
                     sampleBreakSheet ''12/24/2025'' 5)"
proof -
  have valid: "0 < length (entryArrays sampleStore)"
    by (simp add: sampleStore_def)
  from inputs_not_mutated [OF valid, of wholeMinutes "''12/24/2025''" exactRatio 0 0 5]
    sample_store_after
  show ?thesis
    by (simp add: sampleStore_def case_prod_unfold Let_def)
qed

end
